theory Spec2Isabelle
  imports Complex_Main "HOL-Library.AList"
begin

section \<open>Data model\<close>

text \<open>
  A pandas/Dask table is a list of named, typed columns of cells. A cell is a null
  (\<open>NaN\<close>, \<open>None\<close>, \<open>NaT\<close>) or a value; numbers are exact rationals, a datetime is
  its timestamp. The flag \<open>dask\<close> is \<open>isinstance(df, dd.DataFrame)\<close>. Column labels are
  Python strings, modelled as lists of 8-bit characters.
\<close>

datatype cell = Null | Num rat | Str string | Boolv bool | Dt int

datatype dtype = Int_dtype | Float_dtype | Bool_dtype | Object_dtype | Datetime_dtype | Category_dtype

record column =
  cname :: string
  cdtype :: dtype
  cells :: "cell list"

record dataframe =
  dask :: bool
  columns :: "column list"

datatype jval = JStr string | JInt int | JNum rat

record log_entry =
  log_job_id :: string
  step_name :: string
  action :: string
  column_name :: "string option"
  after_value :: "(string \<times> jval) list"
  severity :: string

text \<open>\<open>PipelineContext\<close> of \<open>steps/base.py\<close>; the schema is a dict in insertion order.\<close>

record pipeline_context =
  dataset_id :: string
  domain :: string
  job_id :: string
  schema :: "(string \<times> string) list"
  is_dask :: bool
  warnings :: "string list"

text \<open>\<open>StepResult\<close> of \<open>steps/base.py\<close>.\<close>

record step_result =
  sr_df :: dataframe
  sr_logs :: "log_entry list"
  sr_warnings :: "string list"
  sr_modified_columns :: "string list"

definition df_len :: "dataframe \<Rightarrow> nat" where
  "df_len df = (case columns df of [] \<Rightarrow> 0 | c # _ \<Rightarrow> length (cells c))"

definition df_columns :: "dataframe \<Rightarrow> string list" where
  "df_columns df = map cname (columns df)"

section \<open>Python strings\<close>

definition py_lower_char :: "char \<Rightarrow> char" where
  "py_lower_char c =
     (case map_of (zip ''ABCDEFGHIJKLMNOPQRSTUVWXYZ'' ''abcdefghijklmnopqrstuvwxyz'') c of
        Some l \<Rightarrow> l | None \<Rightarrow> c)"

definition py_lower :: "string \<Rightarrow> string" where
  "py_lower s = map py_lower_char s"

definition py_isspace :: "char \<Rightarrow> bool" where
  "py_isspace c = (c \<in> set [CHR 0x09, CHR 0x0A, CHR 0x0B, CHR 0x0C, CHR 0x0D,
     CHR 0x1C, CHR 0x1D, CHR 0x1E, CHR 0x1F, CHR 0x20, CHR 0x85, CHR 0xA0])"

definition strip_while :: "(char \<Rightarrow> bool) \<Rightarrow> string \<Rightarrow> string" where
  "strip_while P s = rev (dropWhile P (rev (dropWhile P s)))"

definition py_strip :: "string \<Rightarrow> string" where
  "py_strip s = strip_while py_isspace s"

definition is_lower_alnum :: "char \<Rightarrow> bool" where
  "is_lower_alnum c = (c \<in> set ''abcdefghijklmnopqrstuvwxyz0123456789'')"

definition py_isdigit :: "char \<Rightarrow> bool" where
  "py_isdigit c = (c \<in> set ''0123456789'')"

definition digit_char :: "nat \<Rightarrow> char" where
  "digit_char n = ''0123456789'' ! n"

text \<open>\<open>str(counter)\<close> for a non-negative integer.\<close>

fun str_nat :: "nat \<Rightarrow> string" where
  "str_nat n = (if n < 10 then [digit_char n] else str_nat (n div 10) @ [digit_char (n mod 10)])"

declare str_nat.simps [simp del]

section \<open>Column Normalizer (\<open>steps/normalizer.py\<close>)\<close>

text \<open>\<open>re.sub(r'[^a-z0-9]', '_', n_col)\<close>\<close>

definition sub_special :: "string \<Rightarrow> string" where
  "sub_special s = map (\<lambda>c. if is_lower_alnum c then c else CHR ''_'') s"

text \<open>\<open>re.sub(r'_+', '_', n_col)\<close>\<close>

fun sub_underscores :: "string \<Rightarrow> string" where
  "sub_underscores [] = []"
| "sub_underscores [c] = [c]"
| "sub_underscores (c # d # s) =
     (if c = CHR ''_'' \<and> d = CHR ''_'' then sub_underscores (d # s)
      else c # sub_underscores (d # s))"

definition strip_underscore :: "string \<Rightarrow> string" where
  "strip_underscore s = strip_while (\<lambda>c. c = CHR ''_'') s"

text \<open>The body of the loop up to the comment \<open># deduplicate\<close>.\<close>

definition normalize_name :: "string \<Rightarrow> string" where
  "normalize_name col =
     (let n = py_strip (py_lower col);
          n = sub_special n;
          n = sub_underscores n;
          n = strip_underscore n;
          n = (if n \<noteq> [] \<and> py_isdigit (hd n) then ''col_'' @ n else n);
          n = (if n = [] then ''unnamed'' else n)
      in n)"

text \<open>\<open>while f"{n_col}_{counter}" in seen: counter += 1\<close>\<close>

function dedup_counter :: "string \<Rightarrow> string list \<Rightarrow> nat \<Rightarrow> nat" where
  "dedup_counter n seen counter =
     (if n @ ''_'' @ str_nat counter \<in> set seen then dedup_counter n seen (counter + 1)
      else counter)"
  by pat_completeness auto

record normalizer_state =
  st_seen :: "string list"
  st_new_cols :: "string list"
  st_modified :: "string list"
  st_logs :: "log_entry list"

definition rename_log :: "string \<Rightarrow> string \<Rightarrow> string \<Rightarrow> log_entry" where
  "rename_log job original n_col =
     \<lparr>log_job_id = job, step_name = ''ColumnNormalizer'', action = ''rename_column'',
      column_name = Some original, after_value = [(''new_name'', JStr n_col)],
      severity = ''info''\<rparr>"

definition normalizer_step :: "string \<Rightarrow> normalizer_state \<Rightarrow> string \<Rightarrow> normalizer_state" where
  "normalizer_step job st col =
     (let n = normalize_name col;
          n_col = (if n \<in> set (st_seen st) then n @ ''_'' @ str_nat (dedup_counter n (st_seen st) 1)
                   else n)
      in \<lparr>st_seen = st_seen st @ [n_col],
          st_new_cols = st_new_cols st @ [n_col],
          st_modified = (if col \<noteq> n_col then st_modified st @ [n_col] else st_modified st),
          st_logs = (if col \<noteq> n_col then st_logs st @ [rename_log job col n_col] else st_logs st)\<rparr>)"

definition normalizer_loop :: "string \<Rightarrow> string list \<Rightarrow> normalizer_state" where
  "normalizer_loop job old_cols =
     foldl (normalizer_step job) \<lparr>st_seen = [], st_new_cols = [], st_modified = [], st_logs = []\<rparr> old_cols"

text \<open>
  \<open>rename_map = dict(zip(old_cols, new_cols))\<close>: a later pair overwrites an earlier one with
  the same key. \<open>rename_map.get(c, c)\<close> is \<open>rename_get\<close>.
\<close>

definition rename_map :: "string list \<Rightarrow> string list \<Rightarrow> string \<Rightarrow> string option" where
  "rename_map old_cols ncols = map_of (rev (zip old_cols ncols))"

definition rename_get :: "(string \<Rightarrow> string option) \<Rightarrow> string \<Rightarrow> string" where
  "rename_get m c = (case m c of Some n \<Rightarrow> n | None \<Rightarrow> c)"

text \<open>\<open>df.rename(columns=rename_map)\<close> maps every label of the table through the dict.\<close>

definition df_rename :: "(string \<Rightarrow> string option) \<Rightarrow> dataframe \<Rightarrow> dataframe" where
  "df_rename m df = df\<lparr>columns := map (\<lambda>c. c\<lparr>cname := rename_get m (cname c)\<rparr>) (columns df)\<rparr>"

definition rename_schema :: "(string \<Rightarrow> string option) \<Rightarrow> (string \<times> string) list \<Rightarrow> (string \<times> string) list" where
  "rename_schema m sch =
     (if sch \<noteq> [] then foldl (\<lambda>new_schema (old_c, role). AList.update (rename_get m old_c) role new_schema) [] sch
      else sch)"

definition ColumnNormalizer_run :: "dataframe \<Rightarrow> pipeline_context \<Rightarrow> step_result \<times> pipeline_context" where
  "ColumnNormalizer_run df context =
     (let old_cols = df_columns df;
          st = normalizer_loop (job_id context) old_cols;
          m = rename_map old_cols (st_new_cols st)
      in (\<lparr>sr_df = df_rename m df, sr_logs = st_logs st, sr_warnings = [],
           sr_modified_columns = st_modified st\<rparr>,
          context\<lparr>schema := rename_schema m (schema context)\<rparr>))"

text \<open>
  The normal form of the normalizer: what \<open>normalize_name\<close> produces and leaves alone. A
  name is non-empty, made of \<open>[a-z0-9_]\<close>, has no underscore at either end and no two
  underscores in a row, and does not start with a digit.
\<close>

fun has_double_us :: "string \<Rightarrow> bool" where
  "has_double_us (c # d # s) = ((c = CHR ''_'' \<and> d = CHR ''_'') \<or> has_double_us (d # s))"
| "has_double_us [c] = False"
| "has_double_us [] = False"

definition name_char :: "char \<Rightarrow> bool" where
  "name_char c = (is_lower_alnum c \<or> c = CHR ''_'')"

definition normalized_name :: "string \<Rightarrow> bool" where
  "normalized_name n =
     (n \<noteq> [] \<and> list_all name_char n \<and> hd n \<noteq> CHR ''_'' \<and> last n \<noteq> CHR ''_''
      \<and> \<not> has_double_us n \<and> \<not> py_isdigit (hd n))"

definition norm_inv :: "normalizer_state \<Rightarrow> bool" where
  "norm_inv st = (distinct (st_new_cols st) \<and> set (st_seen st) = set (st_new_cols st)
     \<and> list_all normalized_name (st_new_cols st))"

text \<open>
  The normal form as the specification words it: names unique, lowercase,
  alphanumeric-or-underscore, not starting with a digit.
\<close>

definition spec_normal_form :: "string list \<Rightarrow> bool" where
  "spec_normal_form cols = (distinct cols \<and>
     list_all (\<lambda>n. py_lower n = n \<and> list_all name_char n \<and> \<not> (n \<noteq> [] \<and> py_isdigit (hd n))) cols)"

text \<open>Example inputs: a context and a table with the given column labels.\<close>

definition ctx0 :: pipeline_context where
  "ctx0 = \<lparr>dataset_id = ''d1'', domain = ''general'', job_id = ''j1'', schema = [],
           is_dask = False, warnings = []\<rparr>"

definition names_df :: "string list \<Rightarrow> dataframe" where
  "names_df ns = \<lparr>dask = False, columns = map (\<lambda>n. \<lparr>cname = n, cdtype = Int_dtype, cells = [Num 1]\<rparr>) ns\<rparr>"

section \<open>Properties of the Column Normalizer\<close>

lemma str_nat_nonempty: "str_nat n \<noteq> []"
  by (subst str_nat.simps) simp

lemma digit_char_val: "n < 10 \<Longrightarrow> (of_char (digit_char n) :: nat) - 48 = n"
proof -
  assume "n < 10"
  then have "n \<in> {0,1,2,3,4,5,6,7,8,9}" by auto
  then show ?thesis by (auto simp: digit_char_def)
qed

lemma nat_of_digits_str_nat:
  "foldl (\<lambda>a c. 10 * a + ((of_char c :: nat) - 48)) 0 (str_nat n) = n"
proof (induction n rule: str_nat.induct)
  case (1 n)
  show ?case
  proof (cases "n < 10")
    case True
    then show ?thesis by (subst str_nat.simps) (simp add: digit_char_val)
  next
    case False
    then show ?thesis using 1 by (subst str_nat.simps) (simp add: digit_char_val)
  qed
qed

lemma str_nat_inj: "str_nat a = str_nat b \<Longrightarrow> a = b"
  by (metis nat_of_digits_str_nat)

lemma dedup_finite: "finite {k. n @ ''_'' @ str_nat k \<in> set seen}"
proof -
  have "inj_on (\<lambda>k. n @ ''_'' @ str_nat k) {k. n @ ''_'' @ str_nat k \<in> set seen}"
    by (auto simp: inj_on_def dest: str_nat_inj)
  moreover have "(\<lambda>k. n @ ''_'' @ str_nat k) ` {k. n @ ''_'' @ str_nat k \<in> set seen} \<subseteq> set seen"
    by auto
  ultimately show ?thesis
    using finite_imageD finite_subset by (metis (no_types, lifting) List.finite_set)
qed

termination dedup_counter
proof (relation "measure (\<lambda>(n, seen, c). card {k. c \<le> k \<and> n @ ''_'' @ str_nat k \<in> set seen})")
  show "wf (measure (\<lambda>(n, seen, c). card {k. c \<le> k \<and> n @ ''_'' @ str_nat k \<in> set seen}))" by simp
next
  fix n :: string and seen :: "string list" and counter :: nat
  assume a: "n @ ''_'' @ str_nat counter \<in> set seen"
  have fin: "finite {k. counter \<le> k \<and> n @ ''_'' @ str_nat k \<in> set seen}"
    by (rule finite_subset [OF _ dedup_finite [of n seen]]) auto
  have "counter \<in> {k. counter \<le> k \<and> n @ ''_'' @ str_nat k \<in> set seen}"
    using a by simp
  moreover have "counter \<notin> {k. counter + 1 \<le> k \<and> n @ ''_'' @ str_nat k \<in> set seen}"
    by simp
  moreover have "{k. counter + 1 \<le> k \<and> n @ ''_'' @ str_nat k \<in> set seen}
        \<subseteq> {k. counter \<le> k \<and> n @ ''_'' @ str_nat k \<in> set seen}"
    by auto
  ultimately have "{k. counter + 1 \<le> k \<and> n @ ''_'' @ str_nat k \<in> set seen}
        \<subset> {k. counter \<le> k \<and> n @ ''_'' @ str_nat k \<in> set seen}"
    by blast
  then show "((n, seen, counter + 1), (n, seen, counter))
      \<in> measure (\<lambda>(n, seen, c). card {k. c \<le> k \<and> n @ ''_'' @ str_nat k \<in> set seen})"
    using fin by (simp add: psubset_card_mono)
qed

lemma has_double_us_append:
  "has_double_us (a @ b) =
     (has_double_us a \<or> has_double_us b \<or> (a \<noteq> [] \<and> b \<noteq> [] \<and> last a = CHR ''_'' \<and> hd b = CHR ''_''))"
proof (induction a rule: has_double_us.induct)
  case (1 c d s)
  then show ?case by auto
next
  case (2 c)
  then show ?case by (cases b) auto
next
  case 3
  then show ?case by simp
qed

lemma has_double_us_rev: "has_double_us (rev s) = has_double_us s"
proof (induction s)
  case Nil
  then show ?case by simp
next
  case (Cons c s)
  then show ?case by (cases s) (auto simp: has_double_us_append hd_rev last_rev)
qed

lemma has_double_us_dropWhile: "has_double_us (dropWhile P s) \<Longrightarrow> has_double_us s"
proof -
  assume h: "has_double_us (dropWhile P s)"
  have "has_double_us (takeWhile P s @ dropWhile P s)"
    using h by (subst has_double_us_append) simp
  then show ?thesis by simp
qed

lemma has_double_us_strip_while: "has_double_us (strip_while P s) \<Longrightarrow> has_double_us s"
  unfolding strip_while_def
  by (metis has_double_us_rev has_double_us_dropWhile)

lemma set_strip_while: "set (strip_while P s) \<subseteq> set s"
  unfolding strip_while_def by (auto dest!: set_dropWhileD)

lemma strip_while_ends:
  assumes "strip_while P s \<noteq> []"
  shows "\<not> P (hd (strip_while P s)) \<and> \<not> P (last (strip_while P s))"
proof -
  let ?d = "dropWhile P s"
  let ?e = "dropWhile P (rev ?d)"
  have e: "?e \<noteq> []" using assms by (simp add: strip_while_def)
  have d: "?d \<noteq> []"
  proof
    assume "?d = []"
    then have "?e = []" by (simp only: rev.simps dropWhile.simps)
    then show False using e by (simp only:)
  qed
  have l: "\<not> P (hd ?e)" using e by (rule hd_dropWhile)
  have "\<not> P (hd ?d)" using d by (rule hd_dropWhile)
  then have "\<not> P (last (rev ?d))" using d by (simp add: last_rev)
  moreover have "last ?e = last (rev ?d)"
  proof -
    have "rev ?d = takeWhile P (rev ?d) @ ?e" by simp
    then have "last (rev ?d) = last (takeWhile P (rev ?d) @ ?e)" by simp
    also have "\<dots> = last ?e" using e by (rule last_appendR)
    finally show ?thesis by simp
  qed
  ultimately have "\<not> P (last ?e)" by simp
  then show ?thesis using l e by (simp add: strip_while_def hd_rev last_rev)
qed

lemma strip_while_id:
  assumes "s = [] \<or> (\<not> P (hd s) \<and> \<not> P (last s))"
  shows "strip_while P s = s"
proof (cases s)
  case Nil
  then show ?thesis by (simp add: strip_while_def)
next
  case (Cons c t)
  then have a: "\<not> P (hd s)" and b: "\<not> P (last s)" using assms by auto
  have "dropWhile P s = s" using a Cons by simp
  moreover have "dropWhile P (rev s) = rev s"
  proof -
    obtain x xs where r: "rev s = x # xs" using Cons by (cases "rev s") auto
    then have "x = last s" using Cons by (metis hd_rev list.sel(1))
    then have "\<not> P x" using b by simp
    then have "dropWhile P (x # xs) = x # xs" by simp
    then show ?thesis by (simp only: r)
  qed
  ultimately show ?thesis by (simp add: strip_while_def)
qed

lemma sub_underscores_hd: "sub_underscores (d # s) \<noteq> [] \<and> hd (sub_underscores (d # s)) = d"
  by (induction "d # s" arbitrary: d s rule: sub_underscores.induct) auto

lemma sub_underscores_no_double: "\<not> has_double_us (sub_underscores s)"
proof (induction s rule: sub_underscores.induct)
  case 1
  then show ?case by simp
next
  case (2 c)
  then show ?case by simp
next
  case (3 c d s)
  obtain t where t: "sub_underscores (d # s) = d # t"
    using sub_underscores_hd [of d s] by (cases "sub_underscores (d # s)") auto
  show ?case using 3 t by auto
qed

lemma set_sub_underscores: "set (sub_underscores s) \<subseteq> set s"
  by (induction s rule: sub_underscores.induct) auto

lemma sub_underscores_id: "\<not> has_double_us s \<Longrightarrow> sub_underscores s = s"
  by (induction s rule: sub_underscores.induct) auto

lemma name_char_sub_special: "list_all name_char (sub_special s)"
  by (induction s) (simp_all add: sub_special_def name_char_def)

lemma digit_is_lower_alnum: "py_isdigit c \<Longrightarrow> is_lower_alnum c"
  by (auto simp: py_isdigit_def is_lower_alnum_def)

lemma digit_not_us: "py_isdigit c \<Longrightarrow> c \<noteq> CHR ''_''"
  by (auto simp: py_isdigit_def)

lemma digit_char_isdigit: "n < 10 \<Longrightarrow> py_isdigit (digit_char n)"
proof -
  assume "n < 10"
  then have "n \<in> {0,1,2,3,4,5,6,7,8,9}" by auto
  then show ?thesis by (auto simp: digit_char_def py_isdigit_def)
qed

lemma str_nat_digits: "list_all py_isdigit (str_nat n)"
proof (induction n rule: str_nat.induct)
  case (1 n)
  show ?case
  proof (cases "n < 10")
    case True
    then show ?thesis by (subst str_nat.simps) (simp add: digit_char_isdigit)
  next
    case False
    then show ?thesis using 1 by (subst str_nat.simps) (simp add: digit_char_isdigit)
  qed
qed

lemma name_char_iff: "name_char c = (c \<in> set ''abcdefghijklmnopqrstuvwxyz0123456789_'')"
  by (simp add: name_char_def is_lower_alnum_def disj_ac)

lemma py_lower_char_id_all:
  "\<forall>c\<in>set ''abcdefghijklmnopqrstuvwxyz0123456789_''. py_lower_char c = c"
  by (simp add: py_lower_char_def)

lemma py_lower_char_id: "name_char c \<Longrightarrow> py_lower_char c = c"
  using py_lower_char_id_all unfolding name_char_iff by blast

lemma not_space_all:
  "\<forall>c\<in>set ''abcdefghijklmnopqrstuvwxyz0123456789_''. \<not> py_isspace c"
  by (simp add: py_isspace_def)

lemma name_char_not_space: "name_char c \<Longrightarrow> \<not> py_isspace c"
  using not_space_all unfolding name_char_iff by blast

lemma normalized_name_normalize: "normalized_name (normalize_name c)"
proof -
  define a where "a = sub_underscores (sub_special (py_strip (py_lower c)))"
  define b where "b = strip_underscore a"
  have a_chars: "list_all name_char a"
    using name_char_sub_special [of "py_strip (py_lower c)"] set_sub_underscores
    unfolding a_def list_all_iff by blast
  have a_nd: "\<not> has_double_us a" unfolding a_def by (rule sub_underscores_no_double)
  have b_chars: "list_all name_char b"
    using a_chars set_strip_while unfolding b_def strip_underscore_def list_all_iff by blast
  have b_nd: "\<not> has_double_us b"
    using a_nd has_double_us_strip_while unfolding b_def strip_underscore_def by blast
  have b_ends: "b \<noteq> [] \<Longrightarrow> hd b \<noteq> CHR ''_'' \<and> last b \<noteq> CHR ''_''"
    using strip_while_ends [of "\<lambda>c. c = CHR ''_''" a] unfolding b_def strip_underscore_def by simp
  have nn: "normalize_name c =
      (if b = [] then ''unnamed'' else if py_isdigit (hd b) then ''col_'' @ b else b)"
    by (simp add: normalize_name_def Let_def a_def b_def)
  show ?thesis
  proof (cases "b = []")
    case True
    have "normalized_name ''unnamed''"
      by (simp add: normalized_name_def name_char_def is_lower_alnum_def py_isdigit_def)
    then show ?thesis using True by (simp add: nn)
  next
    case False
    note ne = False
    show ?thesis
    proof (cases "py_isdigit (hd b)")
      case True
      have "\<not> has_double_us (''col_'' @ b)"
        using b_nd ne True digit_not_us by (subst has_double_us_append) auto
      moreover have "list_all name_char ''col_''"
        by (simp add: name_char_def is_lower_alnum_def)
      moreover have "\<not> py_isdigit CHR ''c''"
        by (simp add: py_isdigit_def)
      ultimately show ?thesis
        using ne True b_chars b_ends
        by (simp add: nn normalized_name_def)
    next
      case False
      then show ?thesis using ne b_chars b_ends b_nd by (simp add: nn normalized_name_def)
    qed
  qed
qed

lemma normalize_name_id:
  assumes "normalized_name n"
  shows "normalize_name n = n"
proof -
  have ne: "n \<noteq> []" and ch: "list_all name_char n" and h: "hd n \<noteq> CHR ''_''"
    and l: "last n \<noteq> CHR ''_''" and nd: "\<not> has_double_us n" and dg: "\<not> py_isdigit (hd n)"
    using assms by (auto simp: normalized_name_def)
  have 1: "py_lower n = n"
    unfolding py_lower_def using ch by (simp add: list_all_iff py_lower_char_id map_idI)
  have "name_char (hd n)" "name_char (last n)" using ne ch by (auto simp: list_all_iff)
  then have 2: "py_strip n = n"
    unfolding py_strip_def by (intro strip_while_id) (simp add: name_char_not_space)
  have 3: "sub_special n = n"
    unfolding sub_special_def using ch h by (auto simp: list_all_iff name_char_def intro!: map_idI)
  have 4: "sub_underscores n = n" using nd by (rule sub_underscores_id)
  have 5: "strip_underscore n = n"
    unfolding strip_underscore_def using h l by (intro strip_while_id) simp
  show ?thesis using ne dg by (simp add: normalize_name_def Let_def 1 2 3 4 5)
qed

lemma normalized_name_suffix:
  assumes "normalized_name n"
  shows "normalized_name (n @ ''_'' @ str_nat k)"
proof -
  have ne: "n \<noteq> []" and ch: "list_all name_char n" and h: "hd n \<noteq> CHR ''_''"
    and l: "last n \<noteq> CHR ''_''" and nd: "\<not> has_double_us n" and dg: "\<not> py_isdigit (hd n)"
    using assms by (auto simp: normalized_name_def)
  have sd: "list_all py_isdigit (str_nat k)" by (rule str_nat_digits)
  have sne: "str_nat k \<noteq> []" by (rule str_nat_nonempty)
  have s_hd: "hd (str_nat k) \<noteq> CHR ''_''" and s_last: "last (str_nat k) \<noteq> CHR ''_''"
    using sd sne digit_not_us by (auto simp: list_all_iff)
  have s_nd: "\<not> has_double_us (str_nat k)"
  proof -
    have "\<And>s. list_all py_isdigit s \<Longrightarrow> \<not> has_double_us s"
    proof -
      fix s show "list_all py_isdigit s \<Longrightarrow> \<not> has_double_us s"
        by (induction s rule: has_double_us.induct) (auto dest: digit_not_us)
    qed
    then show ?thesis using sd by blast
  qed
  have s_ch: "list_all name_char (str_nat k)"
    using sd by (auto simp: list_all_iff name_char_def dest: digit_is_lower_alnum)
  have "\<not> has_double_us (CHR ''_'' # str_nat k)"
    using s_nd s_hd sne by (cases "str_nat k") auto
  then have "\<not> has_double_us (n @ CHR ''_'' # str_nat k)"
    using nd l ne by (subst has_double_us_append) simp
  moreover have "last (n @ CHR ''_'' # str_nat k) \<noteq> CHR ''_''" using s_last sne by simp
  moreover have "list_all name_char (n @ CHR ''_'' # str_nat k)"
    using ch s_ch by (simp add: name_char_def)
  ultimately show ?thesis using ne h dg by (simp add: normalized_name_def)
qed

lemma dedup_counter_fresh: "n @ ''_'' @ str_nat (dedup_counter n used c) \<notin> set used"
proof (induction n used c rule: dedup_counter.induct)
  case (1 n used c)
  show ?case
  proof (cases "n @ ''_'' @ str_nat c \<in> set used")
    case True
    then show ?thesis using 1 by (subst dedup_counter.simps) simp
  next
    case False
    then show ?thesis by (subst dedup_counter.simps) simp
  qed
qed

lemma normalizer_step_new:
  "\<exists>x. x \<notin> set (st_seen st) \<and> normalized_name x
     \<and> st_new_cols (normalizer_step job st col) = st_new_cols st @ [x]
     \<and> st_seen (normalizer_step job st col) = st_seen st @ [x]"
proof (cases "normalize_name col \<in> set (st_seen st)")
  case True
  let ?x = "normalize_name col @ ''_'' @ str_nat (dedup_counter (normalize_name col) (st_seen st) 1)"
  have "?x \<notin> set (st_seen st)" by (rule dedup_counter_fresh)
  moreover have "normalized_name ?x"
    by (rule normalized_name_suffix [OF normalized_name_normalize])
  ultimately show ?thesis using True by (simp add: normalizer_step_def Let_def)
next
  case False
  then show ?thesis
    using normalized_name_normalize [of col] by (simp add: normalizer_step_def Let_def)
qed

lemma norm_inv_step: "norm_inv st \<Longrightarrow> norm_inv (normalizer_step job st col)"
proof -
  assume inv: "norm_inv st"
  obtain x where x: "x \<notin> set (st_seen st)" "normalized_name x"
      "st_new_cols (normalizer_step job st col) = st_new_cols st @ [x]"
      "st_seen (normalizer_step job st col) = st_seen st @ [x]"
    using normalizer_step_new by blast
  show ?thesis using inv x by (simp add: norm_inv_def)
qed

lemma norm_inv_foldl: "norm_inv st \<Longrightarrow> norm_inv (foldl (normalizer_step job) st cols)"
  by (induction cols arbitrary: st) (simp_all add: norm_inv_step)

lemma length_new_cols_step:
  "length (st_new_cols (normalizer_step job st col)) = Suc (length (st_new_cols st))"
  by (simp add: normalizer_step_def Let_def)

lemma length_new_cols_foldl:
  "length (st_new_cols (foldl (normalizer_step job) st cols)) = length (st_new_cols st) + length cols"
  by (induction cols arbitrary: st) (simp_all add: length_new_cols_step)

lemma norm_inv_loop: "norm_inv (normalizer_loop job cols)"
  unfolding normalizer_loop_def by (rule norm_inv_foldl) (simp add: norm_inv_def)

lemma length_loop: "length (st_new_cols (normalizer_loop job cols)) = length cols"
  unfolding normalizer_loop_def by (simp add: length_new_cols_foldl)

lemma normalizer_step_id:
  assumes "normalized_name col" and "col \<notin> set (st_seen st)"
  shows "normalizer_step job st col = st\<lparr>st_seen := st_seen st @ [col], st_new_cols := st_new_cols st @ [col]\<rparr>"
  using assms by (simp add: normalizer_step_def Let_def normalize_name_id)

lemma normalizer_foldl_id:
  assumes "distinct cols" and "list_all normalized_name cols" and "set cols \<inter> set (st_seen st) = {}"
  shows "foldl (normalizer_step job) st cols
         = st\<lparr>st_seen := st_seen st @ cols, st_new_cols := st_new_cols st @ cols\<rparr>"
  using assms
proof (induction cols arbitrary: st)
  case Nil
  then show ?case by simp
next
  case (Cons c cols)
  have c: "normalized_name c" "c \<notin> set (st_seen st)" using Cons.prems by auto
  let ?st = "st\<lparr>st_seen := st_seen st @ [c], st_new_cols := st_new_cols st @ [c]\<rparr>"
  have "set cols \<inter> set (st_seen ?st) = {}" using Cons.prems by auto
  then have "foldl (normalizer_step job) ?st cols
      = ?st\<lparr>st_seen := st_seen ?st @ cols, st_new_cols := st_new_cols ?st @ cols\<rparr>"
    using Cons.IH [of ?st] Cons.prems by simp
  then show ?case by (simp add: normalizer_step_id [OF c])
qed

lemma normalizer_loop_id:
  assumes "distinct cols" and "list_all normalized_name cols"
  shows "normalizer_loop job cols = \<lparr>st_seen = cols, st_new_cols = cols, st_modified = [], st_logs = []\<rparr>"
  unfolding normalizer_loop_def using normalizer_foldl_id [OF assms, of "\<lparr>st_seen = [], st_new_cols = [], st_modified = [], st_logs = []\<rparr>" job]
  by simp

lemma rename_map_distinct:
  assumes "distinct old" and "length new = length old"
  shows "map (rename_get (rename_map old new)) old = new"
proof (rule nth_equalityI)
  show "length (map (rename_get (rename_map old new)) old) = length new" using assms by simp
next
  fix i assume "i < length (map (rename_get (rename_map old new)) old)"
  then have i: "i < length old" by simp
  have "distinct (map fst (rev (zip old new)))" using assms by (simp add: rev_map [symmetric])
  moreover have "(old ! i, new ! i) \<in> set (rev (zip old new))"
    using i assms by (auto simp: set_zip)
  ultimately have "map_of (rev (zip old new)) (old ! i) = Some (new ! i)"
    by (rule map_of_is_SomeI)
  then show "map (rename_get (rename_map old new)) old ! i = new ! i"
    using i by (simp add: rename_get_def rename_map_def)
qed

lemma run_columns_distinct:
  assumes "distinct (df_columns df)"
  shows "df_columns (sr_df (fst (ColumnNormalizer_run df ctx)))
         = st_new_cols (normalizer_loop (job_id ctx) (df_columns df))"
proof -
  let ?new = "st_new_cols (normalizer_loop (job_id ctx) (df_columns df))"
  have "map (rename_get (rename_map (df_columns df) ?new)) (df_columns df) = ?new"
    using assms by (rule rename_map_distinct) (rule length_loop)
  then show ?thesis
    by (simp add: ColumnNormalizer_run_def Let_def df_rename_def df_columns_def comp_def)
qed

lemma run_normalized_id:
  assumes "distinct (df_columns df)" and "list_all normalized_name (df_columns df)"
  shows "sr_df (fst (ColumnNormalizer_run df ctx)) = df
       \<and> sr_logs (fst (ColumnNormalizer_run df ctx)) = []
       \<and> sr_modified_columns (fst (ColumnNormalizer_run df ctx)) = []"
proof -
  have l: "normalizer_loop (job_id ctx) (df_columns df)
      = \<lparr>st_seen = df_columns df, st_new_cols = df_columns df, st_modified = [], st_logs = []\<rparr>"
    using assms by (rule normalizer_loop_id)
  have m: "map (rename_get (rename_map (df_columns df) (df_columns df))) (df_columns df) = df_columns df"
    using assms(1) by (rule rename_map_distinct) simp
  have "map (\<lambda>c. c\<lparr>cname := rename_get (rename_map (df_columns df) (df_columns df)) (cname c)\<rparr>) (columns df)
        = columns df"
  proof (rule map_idI)
    fix c assume "c \<in> set (columns df)"
    then obtain i where i: "i < length (columns df)" "c = columns df ! i" by (auto simp: in_set_conv_nth)
    have "map (rename_get (rename_map (df_columns df) (df_columns df))) (df_columns df) ! i = df_columns df ! i"
      using m by simp
    then have "rename_get (rename_map (df_columns df) (df_columns df)) (cname c) = cname c"
      using i by (simp add: df_columns_def)
    then show "c\<lparr>cname := rename_get (rename_map (df_columns df) (df_columns df)) (cname c)\<rparr> = c"
      by simp
  qed
  then show ?thesis by (simp add: ColumnNormalizer_run_def Let_def l df_rename_def)
qed

lemma ColumnNormalizer_run_distinct_labels:
  assumes "distinct (df_columns df)"
  shows "distinct (df_columns (sr_df (fst (ColumnNormalizer_run df ctx))))
       \<and> list_all normalized_name (df_columns (sr_df (fst (ColumnNormalizer_run df ctx))))"
  using norm_inv_loop [of "job_id ctx" "df_columns df"] run_columns_distinct [OF assms, of ctx]
  by (simp add: norm_inv_def)

text \<open>
  Claim C9, as amended. For a table with pairwise distinct column labels: when every label
  is in the normalizer's normal form (\<open>normalized_name\<close>), the step returns the table
  unchanged, with no rename log entry and no modified column; and running the step a second
  time on the output of the first gives the same column names, again with no rename.
\<close>

theorem ColumnNormalizer_run_idempotent:
  assumes "distinct (df_columns df)"
  shows "(list_all normalized_name (df_columns df) \<longrightarrow>
            sr_df (fst (ColumnNormalizer_run df ctx)) = df
          \<and> sr_logs (fst (ColumnNormalizer_run df ctx)) = []
          \<and> sr_modified_columns (fst (ColumnNormalizer_run df ctx)) = [])
       \<and> (case ColumnNormalizer_run df ctx of (r1, ctx1) \<Rightarrow>
            case ColumnNormalizer_run (sr_df r1) ctx1 of (r2, ctx2) \<Rightarrow>
              df_columns (sr_df r2) = df_columns (sr_df r1) \<and> sr_logs r2 = []
              \<and> sr_modified_columns r2 = [])"
proof -
  let ?r1 = "fst (ColumnNormalizer_run df ctx)" and ?c1 = "snd (ColumnNormalizer_run df ctx)"
  have cols1: "df_columns (sr_df ?r1) = st_new_cols (normalizer_loop (job_id ctx) (df_columns df))"
    using assms by (rule run_columns_distinct)
  have inv: "norm_inv (normalizer_loop (job_id ctx) (df_columns df))" by (rule norm_inv_loop)
  have d1: "distinct (df_columns (sr_df ?r1))" and n1: "list_all normalized_name (df_columns (sr_df ?r1))"
    using inv cols1 by (simp_all add: norm_inv_def)
  have "sr_df (fst (ColumnNormalizer_run (sr_df ?r1) ?c1)) = sr_df ?r1
       \<and> sr_logs (fst (ColumnNormalizer_run (sr_df ?r1) ?c1)) = []
       \<and> sr_modified_columns (fst (ColumnNormalizer_run (sr_df ?r1) ?c1)) = []"
    using d1 n1 by (rule run_normalized_id)
  then have second: "case ColumnNormalizer_run df ctx of (r1, ctx1) \<Rightarrow>
            case ColumnNormalizer_run (sr_df r1) ctx1 of (r2, ctx2) \<Rightarrow>
              df_columns (sr_df r2) = df_columns (sr_df r1) \<and> sr_logs r2 = []
              \<and> sr_modified_columns r2 = []"
    by (simp add: case_prod_beta)
  show ?thesis using second run_normalized_id [OF assms, of ctx] by blast
qed

theorem ColumnNormalizer_run_idempotent_witness:
  "distinct (df_columns (names_df [''total'', ''order_id'']))
   \<and> list_all normalized_name (df_columns (names_df [''total'', ''order_id'']))
   \<and> sr_df (fst (ColumnNormalizer_run (names_df [''total'', ''order_id'']) ctx0))
       = names_df [''total'', ''order_id'']
   \<and> sr_logs (fst (ColumnNormalizer_run (names_df [''total'', ''order_id'']) ctx0)) = []
   \<and> distinct (df_columns (names_df [''Order ID'', ''order id'', ''2nd'']))
   \<and> df_columns (sr_df (fst (ColumnNormalizer_run (names_df [''Order ID'', ''order id'', ''2nd'']) ctx0)))
       = [''order_id'', ''order_id_1'', ''col_2nd'']
   \<and> df_columns (sr_df (fst (ColumnNormalizer_run
         (sr_df (fst (ColumnNormalizer_run (names_df [''Order ID'', ''order id'', ''2nd'']) ctx0)))
         (snd (ColumnNormalizer_run (names_df [''Order ID'', ''order id'', ''2nd'']) ctx0)))))
       = [''order_id'', ''order_id_1'', ''col_2nd'']"
proof -
  have d1: "distinct (df_columns (names_df [''total'', ''order_id'']))"
    by (simp add: names_df_def df_columns_def)
  have n1: "list_all normalized_name (df_columns (names_df [''total'', ''order_id'']))"
    by code_simp
  have d2: "distinct (df_columns (names_df [''Order ID'', ''order id'', ''2nd'']))"
    by (simp add: names_df_def df_columns_def)
  have c2: "df_columns (sr_df (fst (ColumnNormalizer_run (names_df [''Order ID'', ''order id'', ''2nd'']) ctx0)))
       = [''order_id'', ''order_id_1'', ''col_2nd'']"
    by code_simp
  show ?thesis
    using ColumnNormalizer_run_idempotent [OF d1, of ctx0]
      ColumnNormalizer_run_idempotent [OF d2, of ctx0] d1 n1 d2 c2
    by (simp add: case_prod_beta)
qed

text \<open>
  Claim C9, as stated, fails: the one-column table with the label \<open>_a\<close> is in the normal
  form the claim describes (unique, lowercase, alphanumeric-or-underscore, not starting with
  a digit), and the step renames the column to \<open>a\<close> and logs the rename.
\<close>

theorem ColumnNormalizer_noop_counterexample:
  "spec_normal_form (df_columns (names_df [''_a'']))
   \<and> df_columns (sr_df (fst (ColumnNormalizer_run (names_df [''_a'']) ctx0))) = [''a'']
   \<and> sr_logs (fst (ColumnNormalizer_run (names_df [''_a'']) ctx0)) = [rename_log ''j1'' ''_a'' ''a'']"
  by code_simp

text \<open>
  Claim C4: the output column names are pairwise unique. The code at a table with the
  label \<open>a\<close> twice: the loop computes the new names \<open>a\<close> and \<open>a_1\<close>, the dict
  \<open>rename_map\<close> keeps one entry for the key \<open>a\<close> (the last), and \<open>df.rename\<close> gives
  both columns the name \<open>a_1\<close>. (For pairwise distinct input labels the property holds:
  \<open>ColumnNormalizer_run_distinct_labels\<close>.)
\<close>

theorem ColumnNormalizer_duplicate_labels:
  "df_columns (sr_df (fst (ColumnNormalizer_run (names_df [''a'', ''a'']) ctx0))) = [''a_1'', ''a_1'']
   \<and> \<not> distinct (df_columns (sr_df (fst (ColumnNormalizer_run (names_df [''a'', ''a'']) ctx0))))"
  by code_simp

section \<open>Python numbers\<close>

text \<open>
  A Python \<open>float\<close> (and a numpy \<open>float64\<close>) is an IEEE 754 binary64 number, modelled as
  the rational it denotes. Every arithmetic operation gives the exact result rounded to the
  nearest binary64 number, a tie to the even neighbour: \<open>binary64\<close>, for results below the
  overflow threshold (the floats of this development lie in \<open>[0, 100]\<close>). A float literal
  such as \<open>0.95\<close> is \<open>binary64 (95 / 100)\<close>.
\<close>

definition round_half_even :: "rat \<Rightarrow> int" where
  "round_half_even x =
     (let f = \<lfloor>x\<rfloor>; d = x - of_int f
      in if d < 1 / 2 then f else if 1 / 2 < d then f + 1 else if even f then f else f + 1)"

text \<open>\<open>int.bit_length()\<close> of a non-negative integer\<close>

function bit_length :: "int \<Rightarrow> int" where
  "bit_length n = (if n \<le> 0 then 0 else 1 + bit_length (n div 2))"
  by pat_completeness auto

termination bit_length
  by (relation "measure nat") auto

declare bit_length.simps [simp del]

definition pow2 :: "int \<Rightarrow> rat" where
  "pow2 z = (if 0 \<le> z then 2 ^ nat z else 1 / 2 ^ nat (- z))"

text \<open>The exponent \<open>e\<close> with \<open>2\<^sup>e \<le> x < 2\<^sup>e\<^sup>+\<^sup>1\<close>, for \<open>x > 0\<close>.\<close>

definition floor_log2 :: "rat \<Rightarrow> int" where
  "floor_log2 x =
     (let k = bit_length (fst (quotient_of x)) - bit_length (snd (quotient_of x))
      in if pow2 k \<le> x then k else k - 1)"

text \<open>
  Rounding to binary64: 53 significant bits, the spacing of the subnormal numbers below
  \<open>2\<^sup>-\<^sup>1\<^sup>0\<^sup>2\<^sup>2\<close>.
\<close>

definition binary64 :: "rat \<Rightarrow> rat" where
  "binary64 x =
     (if x = 0 then 0
      else let u = pow2 (max (floor_log2 \<bar>x\<bar>) (- 1022) - 52)
           in of_int (round_half_even (x / u)) * u)"

section \<open>Duplicate Detector (\<open>steps/duplicate_detector.py\<close>)\<close>

definition two_digits :: "nat \<Rightarrow> string" where
  "two_digits n = [digit_char (n div 10 mod 10), digit_char (n mod 10)]"

text \<open>
  \<open>f"{x:.2%}"\<close> for a float \<open>x \<ge> 0\<close>: the float product \<open>x * 100\<close>, then its exact value
  rounded to two decimals (a tie to the even neighbour).
\<close>

definition fmt_percent2 :: "rat \<Rightarrow> string" where
  "fmt_percent2 x =
     (let y = binary64 (x * 100); n = nat (round_half_even (y * 100))
      in str_nat (n div 100) @ ''.'' @ two_digits (n mod 100) @ ''%'')"

text \<open>The rows of a table, in order: row \<open>i\<close> holds cell \<open>i\<close> of every column.\<close>

definition df_rows :: "dataframe \<Rightarrow> cell list list" where
  "df_rows df = map (\<lambda>i. map (\<lambda>c. cells c ! i) (columns df)) [0..<df_len df]"

text \<open>\<open>df.duplicated()\<close>: a row is flagged when an equal row stands before it.\<close>

fun duplicated_from :: "'a list \<Rightarrow> 'a list \<Rightarrow> bool list" where
  "duplicated_from earlier [] = []"
| "duplicated_from earlier (r # rs) = (r \<in> set earlier) # duplicated_from (r # earlier) rs"

definition duplicated :: "'a list \<Rightarrow> bool list" where
  "duplicated rs = duplicated_from [] rs"

text \<open>\<open>dup_pct\<close> is the float quotient \<open>dup_count / len(df)\<close>.\<close>

definition dup_warning :: "nat \<Rightarrow> rat \<Rightarrow> string" where
  "dup_warning dup_count dup_pct =
     ''Found '' @ str_nat dup_count @ '' exact duplicate rows ('' @ fmt_percent2 dup_pct @ '').''"

definition dup_log :: "string \<Rightarrow> nat \<Rightarrow> log_entry" where
  "dup_log job dup_count =
     \<lparr>log_job_id = job, step_name = ''DuplicateDetector'', action = ''flag_duplicates'',
      column_name = None, after_value = [(''dup_count'', JInt (int dup_count))],
      severity = ''warning''\<rparr>"

text \<open>
  \<open>DuplicateDetector.run\<close>. On a Dask table the body of the \<open>try\<close> is \<open>pass\<close>. On a
  pandas table \<open>df.duplicated()\<close> hashes the cells of every row and raises a \<open>TypeError\<close>
  at a cell that cannot be hashed (a list, a dict). Cells of this model hold no such value, so
  whether the call raises is the parameter \<open>duplicated_error\<close> (the exception, if any). The
  handler \<open>except Exception: pass\<close> then leaves \<open>logs\<close> and \<open>warnings\<close> empty.
\<close>

definition DuplicateDetector_run ::
  "(dataframe \<Rightarrow> string option) \<Rightarrow> dataframe \<Rightarrow> pipeline_context \<Rightarrow> step_result" where
  "DuplicateDetector_run duplicated_error df context =
     (if dask df then \<lparr>sr_df = df, sr_logs = [], sr_warnings = [], sr_modified_columns = []\<rparr>
      else
        (case duplicated_error df of
           Some exc \<Rightarrow> \<lparr>sr_df = df, sr_logs = [], sr_warnings = [], sr_modified_columns = []\<rparr>
         | None \<Rightarrow>
             let dup_count = length (filter (\<lambda>b. b) (duplicated (df_rows df)))
             in if dup_count > 0 then
                  let dup_pct = binary64 (of_nat dup_count / of_nat (df_len df))
                  in \<lparr>sr_df = df, sr_logs = [dup_log (job_id context) dup_count],
                      sr_warnings = [dup_warning dup_count dup_pct], sr_modified_columns = []\<rparr>
                else \<lparr>sr_df = df, sr_logs = [], sr_warnings = [], sr_modified_columns = []\<rparr>))"

text \<open>Example input: four rows, the third equal to the first.\<close>

definition dup_df :: dataframe where
  "dup_df = \<lparr>dask = False, columns =
     [\<lparr>cname = ''id'', cdtype = Int_dtype, cells = [Num 1, Num 2, Num 1, Num 1]\<rparr>,
      \<lparr>cname = ''name'', cdtype = Object_dtype, cells = [Str ''x'', Str ''y'', Str ''x'', Null]\<rparr>]\<rparr>"

definition uniq_df :: dataframe where
  "uniq_df = \<lparr>dask = False, columns =
     [\<lparr>cname = ''id'', cdtype = Int_dtype, cells = [Num 1, Num 2, Num 3]\<rparr>]\<rparr>"

text \<open>Example parameters: every cell can be hashed; some cell cannot.\<close>

definition hashable :: "dataframe \<Rightarrow> string option" where
  "hashable df = None"

definition unhashable :: "dataframe \<Rightarrow> string option" where
  "unhashable df = Some ''unhashable type: list''"

text \<open>The formatted percentage of 23 duplicates in 160 rows: the float product is below 14.375.\<close>

lemma fmt_percent2_float: "fmt_percent2 (binary64 (23 / 160)) = ''14.37%''"
  by code_simp

lemma duplicated_from_count:
  "length (filter (\<lambda>b. b) (duplicated_from earlier rs)) + card (set rs - set earlier) = length rs"
proof (induction rs arbitrary: earlier)
  case Nil
  then show ?case by simp
next
  case (Cons r rs)
  let ?L1 = "length (filter (\<lambda>b. b) (duplicated_from earlier (r # rs)))"
  let ?L2 = "length (filter (\<lambda>b. b) (duplicated_from (r # earlier) rs))"
  let ?C1 = "card (set (r # rs) - set earlier)"
  let ?C2 = "card (set rs - set (r # earlier))"
  have ih: "?L2 + ?C2 = length rs" by (rule Cons)
  have len: "length (r # rs) = Suc (length rs)" by simp
  show ?case
  proof (cases "r \<in> set earlier")
    case True
    have l: "?L1 = Suc ?L2" using True by simp
    have "set (r # rs) - set earlier = set rs - set (r # earlier)" using True by auto
    then have c: "?C1 = ?C2" by (rule arg_cong)
    show ?thesis using l c ih len by linarith
  next
    case False
    have l: "?L1 = ?L2" using False by simp
    have e: "set (r # rs) - set earlier = insert r (set rs - set (r # earlier))" using False by auto
    have "card (insert r (set rs - set (r # earlier))) = Suc ?C2"
      by (rule card_insert_disjoint) simp_all
    then have c: "?C1 = Suc ?C2" unfolding e .
    show ?thesis using l c ih len by linarith
  qed
qed

lemma dup_count_card: "length (filter (\<lambda>b. b) (duplicated rs)) = length rs - card (set rs)"
  using duplicated_from_count [of "[]" rs] by (simp add: duplicated_def)

lemma dup_count_pos: "(0 < length rs - card (set rs)) = (\<not> distinct rs)"
proof (cases "distinct rs")
  case True
  then show ?thesis by (simp add: distinct_card)
next
  case False
  then have "card (set rs) \<noteq> length rs" using card_distinct by blast
  then have "card (set rs) < length rs" using card_length [of rs] by simp
  then show ?thesis using False by simp
qed

lemma df_rows_length: "length (df_rows df) = df_len df"
  by (simp add: df_rows_def)

text \<open>
  Claim C7, as amended. The step returns the table it was given, on either engine. On a
  Dask table it returns no log entry and no warning: the skipped count is not recorded; the
  same when \<open>df.duplicated()\<close> raises on a pandas table. On a pandas table whose rows are
  counted, with no row equal to an earlier row nothing is returned; otherwise exactly one
  warning and one \<open>flag_duplicates\<close> log entry are returned, where the count is the
  number of rows minus the number of distinct rows and the percentage is the float quotient of
  that count by the number of rows, formatted to two decimals.
\<close>

theorem DuplicateDetector_run_advisory:
  "sr_df (DuplicateDetector_run err df ctx) = df
   \<and> sr_modified_columns (DuplicateDetector_run err df ctx) = []
   \<and> (dask df \<or> err df \<noteq> None \<longrightarrow>
        sr_logs (DuplicateDetector_run err df ctx) = []
      \<and> sr_warnings (DuplicateDetector_run err df ctx) = [])
   \<and> (\<not> dask df \<and> err df = None \<and> distinct (df_rows df) \<longrightarrow>
        sr_logs (DuplicateDetector_run err df ctx) = []
      \<and> sr_warnings (DuplicateDetector_run err df ctx) = [])
   \<and> (\<not> dask df \<and> err df = None \<and> \<not> distinct (df_rows df) \<longrightarrow>
        (let dup_count = df_len df - card (set (df_rows df))
         in 0 < dup_count
          \<and> sr_warnings (DuplicateDetector_run err df ctx)
              = [''Found '' @ str_nat dup_count @ '' exact duplicate rows (''
                  @ fmt_percent2 (binary64 (of_nat dup_count / of_nat (df_len df))) @ '').'']
          \<and> sr_logs (DuplicateDetector_run err df ctx)
              = [\<lparr>log_job_id = job_id ctx, step_name = ''DuplicateDetector'',
                  action = ''flag_duplicates'', column_name = None,
                  after_value = [(''dup_count'', JInt (int dup_count))], severity = ''warning''\<rparr>]))"
proof -
  let ?r = "DuplicateDetector_run err df ctx"
  define k where "k = length (filter (\<lambda>b. b) (duplicated (df_rows df)))"
  have n: "k = df_len df - card (set (df_rows df))"
    by (simp add: k_def dup_count_card df_rows_length)
  have p: "(0 < k) = (\<not> distinct (df_rows df))"
    using dup_count_pos [of "df_rows df"] by (simp add: k_def dup_count_card)
  have run: "?r =
     (if dask df then \<lparr>sr_df = df, sr_logs = [], sr_warnings = [], sr_modified_columns = []\<rparr>
      else
        (case err df of
           Some exc \<Rightarrow> \<lparr>sr_df = df, sr_logs = [], sr_warnings = [], sr_modified_columns = []\<rparr>
         | None \<Rightarrow>
             if k > 0 then
               \<lparr>sr_df = df, sr_logs = [dup_log (job_id ctx) k],
                sr_warnings = [dup_warning k (binary64 (of_nat k / of_nat (df_len df)))],
                sr_modified_columns = []\<rparr>
             else \<lparr>sr_df = df, sr_logs = [], sr_warnings = [], sr_modified_columns = []\<rparr>))"
    unfolding DuplicateDetector_run_def Let_def k_def ..
  have frame: "sr_df ?r = df" "sr_modified_columns ?r = []"
    unfolding run by (simp_all split: option.splits)
  have skipped: "sr_logs ?r = [] \<and> sr_warnings ?r = []" if "dask df \<or> err df \<noteq> None"
    unfolding run using that by (cases "err df") simp_all
  have nodup: "sr_logs ?r = [] \<and> sr_warnings ?r = []"
    if "\<not> dask df" "err df = None" "distinct (df_rows df)"
    unfolding run using that p by simp
  have dup: "0 < k \<and> sr_warnings ?r = [dup_warning k (binary64 (of_nat k / of_nat (df_len df)))]
      \<and> sr_logs ?r = [dup_log (job_id ctx) k]"
    if "\<not> dask df" "err df = None" "\<not> distinct (df_rows df)"
    unfolding run using that p by simp
  show ?thesis
    unfolding Let_def n [symmetric]
    using frame skipped nodup dup
    unfolding dup_warning_def dup_log_def
    by blast
qed

theorem DuplicateDetector_run_advisory_witness:
  "\<not> dask dup_df \<and> hashable dup_df = None \<and> \<not> distinct (df_rows dup_df)
   \<and> sr_df (DuplicateDetector_run hashable dup_df ctx0) = dup_df
   \<and> sr_warnings (DuplicateDetector_run hashable dup_df ctx0) = [''Found 1 exact duplicate rows (25.00%).'']
   \<and> sr_logs (DuplicateDetector_run hashable dup_df ctx0) = [dup_log ''j1'' 1]
   \<and> unhashable dup_df \<noteq> None
   \<and> sr_logs (DuplicateDetector_run unhashable dup_df ctx0) = []
   \<and> sr_warnings (DuplicateDetector_run unhashable dup_df ctx0) = []
   \<and> \<not> dask uniq_df \<and> hashable uniq_df = None \<and> distinct (df_rows uniq_df)
   \<and> sr_logs (DuplicateDetector_run hashable uniq_df ctx0) = []
   \<and> sr_warnings (DuplicateDetector_run hashable uniq_df ctx0) = []"
proof -
  have e: "\<not> dask dup_df" "hashable dup_df = None" "unhashable dup_df \<noteq> None"
    by (simp_all add: dup_df_def hashable_def unhashable_def)
  have r: "\<not> distinct (df_rows dup_df)" by code_simp
  have n: "df_len dup_df - card (set (df_rows dup_df)) = 1" by code_simp
  have l: "df_len dup_df = 4" by code_simp
  have j: "job_id ctx0 = ''j1''" by (simp add: ctx0_def)
  have m: "''Found '' @ str_nat 1 @ '' exact duplicate rows (''
        @ fmt_percent2 (binary64 (of_nat 1 / of_nat 4)) @ '').''
      = ''Found 1 exact duplicate rows (25.00%).''" by code_simp
  have u: "\<not> dask uniq_df" "hashable uniq_df = None" by (simp_all add: uniq_df_def hashable_def)
  have d: "distinct (df_rows uniq_df)" by code_simp
  note A = DuplicateDetector_run_advisory [of hashable dup_df ctx0, unfolded Let_def n, unfolded l j m]
  have B: "sr_df (DuplicateDetector_run hashable dup_df ctx0) = dup_df
      \<and> sr_warnings (DuplicateDetector_run hashable dup_df ctx0) = [''Found 1 exact duplicate rows (25.00%).'']
      \<and> sr_logs (DuplicateDetector_run hashable dup_df ctx0) = [dup_log ''j1'' 1]"
    using A e r by (simp add: dup_log_def)
  show ?thesis
    using B DuplicateDetector_run_advisory [of unhashable dup_df ctx0]
      DuplicateDetector_run_advisory [of hashable uniq_df ctx0] e r u d
    by simp
qed

text \<open>
  Claim C7, as stated, fails: on a Dask table (here with a duplicated row) the step returns
  no log entry at all, so nothing records that the count was skipped.
\<close>

theorem DuplicateDetector_dask_counterexample:
  "dask (dup_df\<lparr>dask := True\<rparr>)
   \<and> \<not> distinct (df_rows (dup_df\<lparr>dask := True\<rparr>))
   \<and> sr_logs (DuplicateDetector_run hashable (dup_df\<lparr>dask := True\<rparr>) ctx0) = []
   \<and> sr_warnings (DuplicateDetector_run hashable (dup_df\<lparr>dask := True\<rparr>) ctx0) = []"
  by code_simp

section \<open>Outlier Detector (\<open>steps/outlier_detector.py\<close>)\<close>

text \<open>
  The calls into pandas and scipy whose results the model does not compute are parameters of
  the step. A result \<open>Inl msg\<close> is a raised exception with \<open>str(exc) = msg\<close>.
  \<open>to_numeric\<close> is \<open>pd.to_numeric(series, errors="coerce")\<close>, \<open>shapiro\<close> and
  \<open>normaltest\<close> give the p-value of the test (a float), \<open>dask_len\<close> is \<open>len(df)\<close> of
  a Dask table (which computes the partitions), \<open>dask_sample\<close> is the materialised random
  sample \<open>df.sample(frac=min(1.0, 50000/len(df))).compute()\<close>.
\<close>

record stats_lib =
  to_numeric :: "cell list \<Rightarrow> string + cell list"
  shapiro :: "rat list \<Rightarrow> string + rat"
  normaltest :: "rat list \<Rightarrow> string + rat"
  dask_len :: "dataframe \<Rightarrow> string + nat"
  dask_sample :: "dataframe \<Rightarrow> string + dataframe"

definition py_quote :: "string \<Rightarrow> string" where
  "py_quote s = CHR 0x27 # s @ [CHR 0x27]"

text \<open>
  \<open>df[col].dtype\<close>: with one column of that label, the column; with several, \<open>df[col]\<close> is
  a DataFrame, which has no attribute \<open>dtype\<close> (an \<open>AttributeError\<close>).
\<close>

definition df_getitem :: "dataframe \<Rightarrow> string \<Rightarrow> string + column" where
  "df_getitem df col =
     (case filter (\<lambda>c. cname c = col) (columns df) of
        [c] \<Rightarrow> Inr c
      | _ \<Rightarrow> Inl (py_quote ''DataFrame'' @ '' object has no attribute '' @ py_quote ''dtype''))"

definition is_numeric_dtype :: "dtype \<Rightarrow> bool" where
  "is_numeric_dtype d = (d = Int_dtype \<or> d = Float_dtype \<or> d = Bool_dtype)"

definition is_bool_dtype :: "dtype \<Rightarrow> bool" where
  "is_bool_dtype d = (d = Bool_dtype)"

text \<open>
  \<open>series.replace([np.inf, -np.inf], np.nan).dropna()\<close>: the finite numbers of the series.
  Cells hold no infinite float, so this keeps the numbers and drops the nulls.
\<close>

definition finite_values :: "cell list \<Rightarrow> rat list" where
  "finite_values cs = concat (map (\<lambda>c. case c of Num x \<Rightarrow> [x] | _ \<Rightarrow> []) cs)"

text \<open>\<open>sub in s\<close> on strings\<close>

fun py_in :: "string \<Rightarrow> string \<Rightarrow> bool" where
  "py_in sub [] = (sub = [])"
| "py_in sub (c # s) = (take (length sub) (c # s) = sub \<or> py_in sub s)"

text \<open>\<open>series.quantile(q)\<close>, pandas' default linear interpolation.\<close>

definition quantile :: "rat list \<Rightarrow> rat \<Rightarrow> rat" where
  "quantile xs q =
     (let s = sort xs; pos = of_nat (length s - 1) * q; lo = nat \<lfloor>pos\<rfloor>;
          frac = pos - of_nat lo
      in if lo + 1 < length s then s ! lo + frac * (s ! (lo + 1) - s ! lo) else s ! lo)"

definition iqr_outliers :: "rat list \<Rightarrow> rat list" where
  "iqr_outliers series =
     (let q1 = quantile series (1 / 4); q3 = quantile series (3 / 4); iqr = q3 - q1
      in filter (\<lambda>x. x < q1 - 3 * iqr \<or> q3 + 3 * iqr < x) series)"

text \<open>
  \<open>series[abs(stats.zscore(series)) > 3.5]\<close>. With the mean \<open>m\<close> and the population
  variance \<open>v\<close>, \<open>|x - m| / sqrt v > 3.5\<close> is \<open>(x - m)\<^sup>2 > 12.25 v\<close>; for \<open>v = 0\<close> every
  z-score is \<open>NaN\<close> and no value is selected.
\<close>

definition zscore_outliers :: "rat list \<Rightarrow> rat list" where
  "zscore_outliers series =
     (let n = of_nat (length series); m = sum_list series / n;
          v = sum_list (map (\<lambda>x. (x - m) * (x - m)) series) / n
      in filter (\<lambda>x. (49 / 4) * v < (x - m) * (x - m)) series)"

definition domain_warnings :: "string \<Rightarrow> string \<Rightarrow> rat list \<Rightarrow> string list" where
  "domain_warnings dmn col series =
     (let lc = py_lower col in
      if dmn = ''healthcare'' then
        (if py_in ''age'' lc \<and> (\<exists>x\<in>set series. 120 < x)
         then [''Healthcare anomaly: '' @ col @ '' contains Age > 120.''] else [])
        @ (if (\<exists>x\<in>set series. x < 0)
              \<and> (\<exists>k\<in>set [''pressure'', ''weight'', ''height'']. py_in k lc)
           then [''Healthcare anomaly: '' @ col @ '' contains impossible negative values.''] else [])
      else if dmn = ''finance'' then
        (if (\<exists>x\<in>set series. x < 0) \<and> (\<exists>k\<in>set [''price'', ''volume'', ''amount'']. py_in k lc)
         then [''Finance warning: '' @ col @ '' contains negative prices/amounts.''] else [])
      else if dmn = ''education'' then
        (if (py_in ''grade'' lc \<or> py_in ''score'' lc)
            \<and> ((\<exists>x\<in>set series. 100 < x) \<or> (\<exists>x\<in>set series. x < 0))
         then [''Education warning: '' @ col @ '' scores fall outside standard 0-100 range.''] else [])
      else [])"

text \<open>
  \<open>round(x, 4)\<close> of a float: the exact value of \<open>x\<close> rounded to four decimals (a tie to
  the even neighbour), and the float nearest to that decimal.
\<close>

definition round4 :: "rat \<Rightarrow> rat" where
  "round4 x = binary64 (of_int (round_half_even (x * 10000)) / 10000)"

text \<open>The entry of a flagged column; \<open>outlier_pct\<close> is the float \<open>outlier_count / n\<close>.\<close>

definition flag_outliers_log :: "string \<Rightarrow> string \<Rightarrow> nat \<Rightarrow> rat \<Rightarrow> string \<Rightarrow> log_entry" where
  "flag_outliers_log job col outlier_count outlier_pct method_used =
     \<lparr>log_job_id = job, step_name = ''OutlierDetector'', action = ''flag_outliers'',
      column_name = Some col,
      after_value = [(''count'', JInt (int outlier_count)), (''pct'', JNum (round4 outlier_pct)),
                     (''method'', JStr method_used)],
      severity = (if binary64 (5 / 100) < outlier_pct then ''warning'' else ''info'')\<rparr>"

definition skip_column_log :: "string \<Rightarrow> string \<Rightarrow> string \<Rightarrow> log_entry" where
  "skip_column_log job col msg =
     \<lparr>log_job_id = job, step_name = ''OutlierDetector'', action = ''skip_column'',
      column_name = Some col, after_value = [(''reason'', JStr msg)], severity = ''warning''\<rparr>"

definition skip_column_warning :: "string \<Rightarrow> string \<Rightarrow> string" where
  "skip_column_warning col msg =
     ''OutlierDetector skipped column '' @ py_quote col @ '' due to error: '' @ msg"

text \<open>
  The body of the \<open>try\<close> for one column: the warnings appended before the body ends, and
  either the exception it raises or the log entries it appends.
\<close>

definition outlier_column_body ::
  "stats_lib \<Rightarrow> dataframe \<Rightarrow> pipeline_context \<Rightarrow> string \<Rightarrow> string list \<times> (string + log_entry list)" where
  "outlier_column_body lib sample_df context col =
     (case df_getitem sample_df col of
        Inl exc \<Rightarrow> ([], Inl exc)
      | Inr c \<Rightarrow>
          if \<not> is_numeric_dtype (cdtype c) \<or> is_bool_dtype (cdtype c) then ([], Inr [])
          else if map_of (schema context) col \<in> {Some ''id_col'', Some ''datetime_col''} then ([], Inr [])
          else
            (case to_numeric lib (cells c) of
               Inl exc \<Rightarrow> ([], Inl exc)
             | Inr cs \<Rightarrow>
                 let series = finite_values cs in
                 if length series < 10 then ([], Inr [])
                 else
                   let n = length series;
                       ws = domain_warnings (domain context) col series;
                       p_val = (case (if n < 5000 then shapiro lib series else normaltest lib series) of
                                  Inl exc \<Rightarrow> 0 | Inr p \<Rightarrow> p);
                       method_used = (if binary64 (5 / 100) < p_val then ''Z-Score'' else ''IQR'');
                       outliers = (if binary64 (5 / 100) < p_val then zscore_outliers series
                                   else iqr_outliers series);
                       outlier_count = length outliers
                   in (ws, Inr (if outlier_count > 0
                         then [flag_outliers_log (job_id context) col outlier_count
                                 (binary64 (of_nat outlier_count / of_nat n)) method_used]
                         else []))))"

text \<open>One iteration of the loop, with its \<open>except Exception\<close>: the log entries and the warnings it appends.\<close>

definition outlier_column_step ::
  "stats_lib \<Rightarrow> dataframe \<Rightarrow> pipeline_context \<Rightarrow> string \<Rightarrow> log_entry list \<times> string list" where
  "outlier_column_step lib sample_df context col =
     (case outlier_column_body lib sample_df context col of
        (ws, Inl exc) \<Rightarrow> ([skip_column_log (job_id context) col exc], ws @ [skip_column_warning col exc])
      | (ws, Inr ls) \<Rightarrow> (ls, ws))"

text \<open>
  The sample, computed before the loop and outside its \<open>try\<close>: an exception of \<open>len(df)\<close>
  or of the sampling of a Dask table leaves \<open>run\<close>.
\<close>

definition outlier_sample :: "stats_lib \<Rightarrow> dataframe \<Rightarrow> string + dataframe" where
  "outlier_sample lib df =
     (if dask df then
        (case dask_len lib df of
           Inl exc \<Rightarrow> Inl exc
         | Inr n \<Rightarrow> if n > 0 then dask_sample lib df else Inr \<lparr>dask = False, columns = []\<rparr>)
      else Inr df)"

definition OutlierDetector_run ::
  "stats_lib \<Rightarrow> dataframe \<Rightarrow> pipeline_context \<Rightarrow> string + step_result" where
  "OutlierDetector_run lib df context =
     (case outlier_sample lib df of
        Inl exc \<Rightarrow> Inl exc
      | Inr sample_df \<Rightarrow>
          let rs = map (outlier_column_step lib sample_df context) (df_columns sample_df)
          in Inr \<lparr>sr_df = df, sr_logs = concat (map fst rs), sr_warnings = concat (map snd rs),
                  sr_modified_columns = []\<rparr>)"

text \<open>Example inputs: a library whose tests report a non-normal sample, and the spec's \<open>age\<close> column.\<close>

definition lib0 :: stats_lib where
  "lib0 = \<lparr>to_numeric = (\<lambda>cs. Inr cs), shapiro = (\<lambda>xs. Inr 0), normaltest = (\<lambda>xs. Inr 0),
           dask_len = (\<lambda>df. Inr (df_len df)), dask_sample = (\<lambda>df. Inr (df\<lparr>dask := False\<rparr>))\<rparr>"

definition age_df :: dataframe where
  "age_df = \<lparr>dask = False, columns =
     [\<lparr>cname = ''age'', cdtype = Float_dtype,
       cells = [Num 25, Num 25, Num 30, Num 150, Num 25, Num 22, Num 25, Num 25, Num 30, Num 24, Num 22, Num 26]\<rparr>,
      \<lparr>cname = ''x'', cdtype = Int_dtype, cells = replicate 12 (Num 1)\<rparr>,
      \<lparr>cname = ''x'', cdtype = Int_dtype, cells = replicate 12 (Num 2)\<rparr>]\<rparr>"

definition healthcare_ctx :: pipeline_context where
  "healthcare_ctx = ctx0\<lparr>domain := ''healthcare''\<rparr>"

definition no_dtype_msg :: string where
  "no_dtype_msg = py_quote ''DataFrame'' @ '' object has no attribute '' @ py_quote ''dtype''"

text \<open>The rounded percentage of one outlier in 800 values: the float quotient is above 0.00125.\<close>

lemma round4_float: "round4 (binary64 (1 / 800)) = binary64 (13 / 10000)"
  by code_simp

lemma OutlierDetector_run_sample_raises:
  assumes "dask df" and "dask_len lib df = Inl exc \<or> (\<exists>n>0. dask_len lib df = Inr n \<and> dask_sample lib df = Inl exc)"
  shows "OutlierDetector_run lib df ctx = Inl exc"
  using assms by (auto simp: OutlierDetector_run_def outlier_sample_def)

lemma outlier_body_actions:
  assumes "outlier_column_body lib sample_df ctx col = (ws, Inr ls)"
  shows "\<forall>l\<in>set ls. action l = ''flag_outliers''"
  using assms
  by (auto simp: outlier_column_body_def flag_outliers_log_def Let_def
      split: sum.splits if_splits)

lemma outlier_step_skip:
  assumes "l \<in> set (fst (outlier_column_step lib sample_df ctx col))" and "action l = ''skip_column''"
  shows "\<exists>ws exc. outlier_column_body lib sample_df ctx col = (ws, Inl exc) \<and> column_name l = Some col"
proof (cases "outlier_column_body lib sample_df ctx col")
  case (Pair ws res)
  show ?thesis
  proof (cases res)
    case (Inl exc)
    then show ?thesis using assms Pair by (simp add: outlier_column_step_def skip_column_log_def)
  next
    case (Inr ls)
    then have "action l = ''flag_outliers''"
      using outlier_body_actions [of lib sample_df ctx col ws ls] assms(1) Pair
      by (simp add: outlier_column_step_def)
    then show ?thesis using assms(2) by simp
  qed
qed

text \<open>
  Claim C8. Whenever \<open>OutlierDetector.run\<close> returns, it returns the table it was given
  (same rows, same columns, same cells) and reports no modified column. It returns whenever
  the sample is obtained, which on a pandas table is always: then, for every column of the
  sample whose analysis raises an exception, the log has a \<open>skip_column\<close> entry that names
  the column and carries the text of the exception as its reason, and the warnings name the
  column and the reason; for every column whose analysis ends normally, its log entries and
  warnings are in the result, whatever the other columns raised; and every
  \<open>skip_column\<close> entry of the log names a column whose analysis raised.
\<close>

theorem OutlierDetector_run_annotates:
  "(\<forall>r. OutlierDetector_run lib df ctx = Inr r \<longrightarrow> sr_df r = df \<and> sr_modified_columns r = [])
   \<and> (\<not> dask df \<longrightarrow> outlier_sample lib df = Inr df)
   \<and> (\<forall>sample_df. outlier_sample lib df = Inr sample_df \<longrightarrow>
        (\<exists>r. OutlierDetector_run lib df ctx = Inr r
           \<and> (\<forall>col\<in>set (df_columns sample_df). \<forall>ws exc.
                 outlier_column_body lib sample_df ctx col = (ws, Inl exc) \<longrightarrow>
                   (\<exists>l\<in>set (sr_logs r).
                       log_job_id l = job_id ctx \<and> step_name l = ''OutlierDetector''
                     \<and> action l = ''skip_column'' \<and> column_name l = Some col
                     \<and> after_value l = [(''reason'', JStr exc)] \<and> severity l = ''warning'')
                 \<and> ''OutlierDetector skipped column '' @ [CHR 0x27] @ col @ [CHR 0x27]
                      @ '' due to error: '' @ exc \<in> set (sr_warnings r))
           \<and> (\<forall>col\<in>set (df_columns sample_df). \<forall>ws ls.
                 outlier_column_body lib sample_df ctx col = (ws, Inr ls) \<longrightarrow>
                   set ls \<subseteq> set (sr_logs r) \<and> set ws \<subseteq> set (sr_warnings r))
           \<and> (\<forall>l\<in>set (sr_logs r). action l = ''skip_column'' \<longrightarrow>
                 (\<exists>col\<in>set (df_columns sample_df). \<exists>ws exc.
                     column_name l = Some col
                   \<and> outlier_column_body lib sample_df ctx col = (ws, Inl exc)))))"
proof -
  have frame: "sr_df r = df \<and> sr_modified_columns r = []"
    if "OutlierDetector_run lib df ctx = Inr r" for r
    using that by (auto simp: OutlierDetector_run_def Let_def split: sum.splits)
  have pandas: "outlier_sample lib df = Inr df" if "\<not> dask df"
    using that by (simp add: outlier_sample_def)
  have returns: "\<exists>r. OutlierDetector_run lib df ctx = Inr r
           \<and> (\<forall>col\<in>set (df_columns sample_df). \<forall>ws exc.
                 outlier_column_body lib sample_df ctx col = (ws, Inl exc) \<longrightarrow>
                   (\<exists>l\<in>set (sr_logs r).
                       log_job_id l = job_id ctx \<and> step_name l = ''OutlierDetector''
                     \<and> action l = ''skip_column'' \<and> column_name l = Some col
                     \<and> after_value l = [(''reason'', JStr exc)] \<and> severity l = ''warning'')
                 \<and> ''OutlierDetector skipped column '' @ [CHR 0x27] @ col @ [CHR 0x27]
                      @ '' due to error: '' @ exc \<in> set (sr_warnings r))
           \<and> (\<forall>col\<in>set (df_columns sample_df). \<forall>ws ls.
                 outlier_column_body lib sample_df ctx col = (ws, Inr ls) \<longrightarrow>
                   set ls \<subseteq> set (sr_logs r) \<and> set ws \<subseteq> set (sr_warnings r))
           \<and> (\<forall>l\<in>set (sr_logs r). action l = ''skip_column'' \<longrightarrow>
                 (\<exists>col\<in>set (df_columns sample_df). \<exists>ws exc.
                     column_name l = Some col
                   \<and> outlier_column_body lib sample_df ctx col = (ws, Inl exc)))"
    if s: "outlier_sample lib df = Inr sample_df" for sample_df
  proof -
    let ?step = "outlier_column_step lib sample_df ctx"
    let ?r = "\<lparr>sr_df = df, sr_logs = concat (map fst (map ?step (df_columns sample_df))),
               sr_warnings = concat (map snd (map ?step (df_columns sample_df))),
               sr_modified_columns = []\<rparr>"
    have run: "OutlierDetector_run lib df ctx = Inr ?r"
      by (simp add: OutlierDetector_run_def s Let_def)
    have inlogs: "set (fst (?step col)) \<subseteq> set (sr_logs ?r)"
      and inwarn: "set (snd (?step col)) \<subseteq> set (sr_warnings ?r)"
      if "col \<in> set (df_columns sample_df)" for col
      using that by auto
    have raised: "(\<exists>l\<in>set (sr_logs ?r).
                       log_job_id l = job_id ctx \<and> step_name l = ''OutlierDetector''
                     \<and> action l = ''skip_column'' \<and> column_name l = Some col
                     \<and> after_value l = [(''reason'', JStr exc)] \<and> severity l = ''warning'')
                 \<and> ''OutlierDetector skipped column '' @ [CHR 0x27] @ col @ [CHR 0x27]
                      @ '' due to error: '' @ exc \<in> set (sr_warnings ?r)"
      if c: "col \<in> set (df_columns sample_df)"
        and b: "outlier_column_body lib sample_df ctx col = (ws, Inl exc)" for col ws exc
    proof -
      have "skip_column_log (job_id ctx) col exc \<in> set (fst (?step col))"
        and "skip_column_warning col exc \<in> set (snd (?step col))"
        using b by (simp_all add: outlier_column_step_def)
      then have l: "skip_column_log (job_id ctx) col exc \<in> set (sr_logs ?r)"
        and w: "skip_column_warning col exc \<in> set (sr_warnings ?r)"
        using inlogs [OF c] inwarn [OF c] by blast+
      have "log_job_id (skip_column_log (job_id ctx) col exc) = job_id ctx
          \<and> step_name (skip_column_log (job_id ctx) col exc) = ''OutlierDetector''
          \<and> action (skip_column_log (job_id ctx) col exc) = ''skip_column''
          \<and> column_name (skip_column_log (job_id ctx) col exc) = Some col
          \<and> after_value (skip_column_log (job_id ctx) col exc) = [(''reason'', JStr exc)]
          \<and> severity (skip_column_log (job_id ctx) col exc) = ''warning''"
        by (simp add: skip_column_log_def)
      moreover have "skip_column_warning col exc
          = ''OutlierDetector skipped column '' @ [CHR 0x27] @ col @ [CHR 0x27] @ '' due to error: '' @ exc"
        by (simp add: skip_column_warning_def py_quote_def)
      ultimately show ?thesis using l w by metis
    qed
    have normal: "set ls \<subseteq> set (sr_logs ?r) \<and> set ws \<subseteq> set (sr_warnings ?r)"
      if c: "col \<in> set (df_columns sample_df)"
        and b: "outlier_column_body lib sample_df ctx col = (ws, Inr ls)" for col ws ls
    proof -
      have "fst (?step col) = ls" "snd (?step col) = ws"
        using b by (simp_all add: outlier_column_step_def)
      then show ?thesis using inlogs [OF c] inwarn [OF c] by simp
    qed
    have skips: "\<exists>col\<in>set (df_columns sample_df). \<exists>ws exc.
                     column_name l = Some col
                   \<and> outlier_column_body lib sample_df ctx col = (ws, Inl exc)"
      if m: "l \<in> set (sr_logs ?r)" and a: "action l = ''skip_column''" for l
    proof -
      obtain col where c: "col \<in> set (df_columns sample_df)" and "l \<in> set (fst (?step col))"
        using m by auto
      then show ?thesis using outlier_step_skip [of l lib sample_df ctx col] a by blast
    qed
    show ?thesis using run raised normal skips by blast
  qed
  show ?thesis using frame pandas returns by blast
qed

theorem OutlierDetector_run_annotates_witness:
  "\<not> dask age_df
   \<and> ''x'' \<in> set (df_columns age_df)
   \<and> outlier_column_body lib0 age_df healthcare_ctx ''x'' = ([], Inl no_dtype_msg)
   \<and> ''age'' \<in> set (df_columns age_df)
   \<and> outlier_column_body lib0 age_df healthcare_ctx ''age''
       = ([''Healthcare anomaly: age contains Age > 120.''],
          Inr [flag_outliers_log ''j1'' ''age'' 1 (binary64 (1 / 12)) ''IQR''])
   \<and> (case OutlierDetector_run lib0 age_df healthcare_ctx of
         Inl exc \<Rightarrow> False
       | Inr r \<Rightarrow>
           sr_df r = age_df
         \<and> skip_column_log ''j1'' ''x'' no_dtype_msg \<in> set (sr_logs r)
         \<and> skip_column_warning ''x'' no_dtype_msg \<in> set (sr_warnings r)
         \<and> flag_outliers_log ''j1'' ''age'' 1 (binary64 (1 / 12)) ''IQR'' \<in> set (sr_logs r)
         \<and> ''Healthcare anomaly: age contains Age > 120.'' \<in> set (sr_warnings r))"
proof -
  have p: "\<not> dask age_df" by (simp add: age_df_def)
  have x: "''x'' \<in> set (df_columns age_df)" by code_simp
  have bx: "outlier_column_body lib0 age_df healthcare_ctx ''x'' = ([], Inl no_dtype_msg)"
    by code_simp
  have a: "''age'' \<in> set (df_columns age_df)" by code_simp
  have ba: "outlier_column_body lib0 age_df healthcare_ctx ''age''
       = ([''Healthcare anomaly: age contains Age > 120.''],
          Inr [flag_outliers_log ''j1'' ''age'' 1 (binary64 (1 / 12)) ''IQR''])"
    by code_simp
  have j: "job_id healthcare_ctx = ''j1''" by (simp add: healthcare_ctx_def ctx0_def)
  note T = OutlierDetector_run_annotates [of lib0 age_df healthcare_ctx]
  have s: "outlier_sample lib0 age_df = Inr age_df"
    using T [THEN conjunct2, THEN conjunct1] p by (rule mp)
  obtain r where run: "OutlierDetector_run lib0 age_df healthcare_ctx = Inr r"
    and R: "\<forall>col\<in>set (df_columns age_df). \<forall>ws exc.
                 outlier_column_body lib0 age_df healthcare_ctx col = (ws, Inl exc) \<longrightarrow>
                   (\<exists>l\<in>set (sr_logs r).
                       log_job_id l = job_id healthcare_ctx \<and> step_name l = ''OutlierDetector''
                     \<and> action l = ''skip_column'' \<and> column_name l = Some col
                     \<and> after_value l = [(''reason'', JStr exc)] \<and> severity l = ''warning'')
                 \<and> ''OutlierDetector skipped column '' @ [CHR 0x27] @ col @ [CHR 0x27]
                      @ '' due to error: '' @ exc \<in> set (sr_warnings r)"
    and N: "\<forall>col\<in>set (df_columns age_df). \<forall>ws ls.
                 outlier_column_body lib0 age_df healthcare_ctx col = (ws, Inr ls) \<longrightarrow>
                   set ls \<subseteq> set (sr_logs r) \<and> set ws \<subseteq> set (sr_warnings r)"
    using T [THEN conjunct2, THEN conjunct2, rule_format, OF s] by (elim exE conjE)
  have f: "sr_df r = age_df" using T [THEN conjunct1, rule_format, OF run] by (rule conjunct1)
  obtain l where l: "l \<in> set (sr_logs r)"
    and fields: "log_job_id l = job_id healthcare_ctx" "step_name l = ''OutlierDetector''"
      "action l = ''skip_column''" "column_name l = Some ''x''"
      "after_value l = [(''reason'', JStr no_dtype_msg)]" "severity l = ''warning''"
    using R [rule_format, OF x bx, THEN conjunct1] by (elim bexE conjE)
  have "l = skip_column_log ''j1'' ''x'' no_dtype_msg"
    using fields j by (cases l) (simp add: skip_column_log_def)
  then have sl: "skip_column_log ''j1'' ''x'' no_dtype_msg \<in> set (sr_logs r)" using l by simp
  have "skip_column_warning ''x'' no_dtype_msg
      = ''OutlierDetector skipped column '' @ [CHR 0x27] @ ''x'' @ [CHR 0x27] @ '' due to error: '' @ no_dtype_msg"
    by (simp add: skip_column_warning_def py_quote_def)
  then have sw: "skip_column_warning ''x'' no_dtype_msg \<in> set (sr_warnings r)"
    using R [rule_format, OF x bx, THEN conjunct2] by (simp only:)
  have fl: "flag_outliers_log ''j1'' ''age'' 1 (binary64 (1 / 12)) ''IQR'' \<in> set (sr_logs r)"
    and fw: "''Healthcare anomaly: age contains Age > 120.'' \<in> set (sr_warnings r)"
    using N [rule_format, OF a ba] by simp_all
  have "case OutlierDetector_run lib0 age_df healthcare_ctx of
         Inl exc \<Rightarrow> False
       | Inr r \<Rightarrow>
           sr_df r = age_df
         \<and> skip_column_log ''j1'' ''x'' no_dtype_msg \<in> set (sr_logs r)
         \<and> skip_column_warning ''x'' no_dtype_msg \<in> set (sr_warnings r)
         \<and> flag_outliers_log ''j1'' ''age'' 1 (binary64 (1 / 12)) ''IQR'' \<in> set (sr_logs r)
         \<and> ''Healthcare anomaly: age contains Age > 120.'' \<in> set (sr_warnings r)"
    unfolding run using f sl sw fl fw by (simp only: sum.case simp_thms)
  then show ?thesis using p x bx a ba by (intro conjI)
qed

section \<open>Schema Analyzer (\<open>steps/schema_analyzer.py\<close>, \<open>core/domain_profiles.py\<close>)\<close>

text \<open>\<open>PIPELINE_ROLE_ALIASES\<close> and \<open>to_pipeline_role\<close>\<close>

definition PIPELINE_ROLE_ALIASES :: "(string \<times> string) list" where
  "PIPELINE_ROLE_ALIASES =
     [(''id_col'', ''id_col''), (''id'', ''id_col''), (''text'', ''text_col''),
      (''text_col'', ''text_col''), (''datetime'', ''datetime_col''),
      (''datetime_col'', ''datetime_col''), (''feature'', ''feature_col''),
      (''feature_col'', ''feature_col''), (''categorical'', ''feature_col''),
      (''target'', ''target_col''), (''target_col'', ''target_col''),
      (''constant'', ''constant_col''), (''constant_col'', ''constant_col'')]"

definition to_pipeline_role :: "string \<Rightarrow> string" where
  "to_pipeline_role role =
     (case map_of PIPELINE_ROLE_ALIASES (py_lower (py_strip role)) of
        Some r \<Rightarrow> r | None \<Rightarrow> ''feature_col'')"

text \<open>
  \<open>get_domain_profile(domain).get("known_columns", {})\<close>, each column with the \<open>role\<close> of
  its entry: only the profile \<open>ai_incidents\<close> declares columns.
\<close>

definition known_columns :: "string \<Rightarrow> (string \<times> string) list" where
  "known_columns dmn =
     (if py_lower (py_strip dmn) = ''ai_incidents'' then
        [(''incident_id'', ''id_col''), (''title'', ''text''), (''description'', ''text''),
         (''date'', ''datetime''), (''year'', ''feature''),
         (''allegeddeployerofaisystem'', ''categorical''),
         (''allegeddeveloperofaisystem'', ''categorical''),
         (''allegedharmedornearlyharmedparties'', ''categorical''),
         (''allegedharmedornearlyharmeddparties'', ''categorical''),
         (''harm_type'', ''categorical''), (''sector_of_deployment'', ''categorical''),
         (''technology_purveyor'', ''categorical''), (''ai_system'', ''categorical'')]
      else [])"

text \<open>The roles a column can have (\<open>PipelineContext.schema\<close>).\<close>

definition pipeline_roles :: "string list" where
  "pipeline_roles = [''id_col'', ''datetime_col'', ''text_col'', ''feature_col'', ''target_col'',
     ''constant_col'']"

text \<open>
  The pandas calls taken as parameters: \<open>to_datetime\<close> is
  \<open>pd.to_datetime(series, errors='coerce')\<close> (\<open>Inl\<close> when it raises), \<open>astype_str\<close> is
  \<open>str(x)\<close> of a cell that is not a string.
\<close>

record pandas_lib =
  to_datetime :: "cell list \<Rightarrow> string + cell list"
  astype_str :: "cell \<Rightarrow> string"

definition dropna :: "cell list \<Rightarrow> cell list" where
  "dropna cs = filter (\<lambda>c. c \<noteq> Null) cs"

definition nunique :: "cell list \<Rightarrow> nat" where
  "nunique cs = length (remdups (dropna cs))"

text \<open>\<open>Series.mean()\<close>: \<open>None\<close> is \<open>NaN\<close>, the mean of no value; a comparison with \<open>NaN\<close> is false.\<close>

definition py_mean :: "rat list \<Rightarrow> rat option" where
  "py_mean xs = (if xs = [] then None else Some (sum_list xs / of_nat (length xs)))"

definition nan_gt :: "rat option \<Rightarrow> rat \<Rightarrow> bool" where
  "nan_gt m b = (case m of None \<Rightarrow> False | Some x \<Rightarrow> b < x)"

definition cell_str :: "pandas_lib \<Rightarrow> cell \<Rightarrow> string" where
  "cell_str lib c = (case c of Str s \<Rightarrow> s | _ \<Rightarrow> astype_str lib c)"

definition is_integer_dtype :: "dtype \<Rightarrow> bool" where
  "is_integer_dtype d = (d = Int_dtype)"

definition is_object_dtype :: "dtype \<Rightarrow> bool" where
  "is_object_dtype d = (d = Object_dtype)"

definition is_datetime64_any_dtype :: "dtype \<Rightarrow> bool" where
  "is_datetime64_any_dtype d = (d = Datetime_dtype)"

text \<open>The \<open>try\<close> block of the branch for object columns; an exception leaves \<open>feature_col\<close>.\<close>

definition text_detection :: "pandas_lib \<Rightarrow> cell list \<Rightarrow> string" where
  "text_detection lib cs =
     (case to_datetime lib (dropna cs) of
        Inl exc \<Rightarrow> ''feature_col''
      | Inr parsed \<Rightarrow>
          let valid_pct = py_mean (map (\<lambda>c. if c \<noteq> Null then 1 else 0) parsed) in
          if nan_gt valid_pct (4 / 5) then ''datetime_col''
          else
            let avg_len = py_mean (map (\<lambda>c. of_nat (length (cell_str lib c))) (dropna cs)) in
            if nan_gt avg_len 50 then ''text_col'' else ''feature_col'')"

definition constant_warning :: "string \<Rightarrow> string" where
  "constant_warning col =
     ''Column '' @ py_quote col @ '' is constant (1 unique value) and flagged for potential drop.''"

text \<open>
  The heuristics for one column: the role and the warnings appended to the context, or the
  exception raised (\<open>df[col].dtype\<close> on a repeated label; the division by
  \<open>len(sample_df) = 0\<close>).
\<close>

definition heuristic_role ::
  "pandas_lib \<Rightarrow> dataframe \<Rightarrow> string \<Rightarrow> string + (string \<times> string list)" where
  "heuristic_role lib sample_df col =
     (case df_getitem sample_df col of
        Inl exc \<Rightarrow> Inl exc
      | Inr c \<Rightarrow>
          let dtype = cdtype c; nu = nunique (cells c) in
          if nu = 1 then Inr (''constant_col'', [constant_warning col])
          else if df_len sample_df = 0 then Inl ''division by zero''
          else if 19 / 20 < (of_nat nu / of_nat (df_len sample_df) :: rat) then
            (if py_in ''id'' (py_lower col) \<or> py_in ''key'' (py_lower col)
                \<or> py_in ''uuid'' (py_lower col) \<or> is_integer_dtype dtype
             then Inr (''id_col'', []) else Inr (''feature_col'', []))
          else if is_object_dtype dtype then Inr (text_detection lib (cells c), [])
          else if is_datetime64_any_dtype dtype then Inr (''datetime_col'', [])
          else Inr (''feature_col'', []))"

definition role_log :: "string \<Rightarrow> string \<Rightarrow> string \<Rightarrow> bool \<Rightarrow> log_entry" where
  "role_log job col role from_profile =
     \<lparr>log_job_id = job, step_name = ''SchemaAnalyzer'', action = ''role_assignment'',
      column_name = Some col,
      after_value = (if from_profile then [(''role'', JStr role), (''source'', JStr ''domain_profile'')]
                     else [(''role'', JStr role)]),
      severity = ''info''\<rparr>"

text \<open>One iteration of the loop over \<open>df.columns\<close>, on the context and the log list.\<close>

definition schema_step ::
  "pandas_lib \<Rightarrow> dataframe \<Rightarrow> string \<Rightarrow> pipeline_context \<times> log_entry list
     \<Rightarrow> string + (pipeline_context \<times> log_entry list)" where
  "schema_step lib sample_df col st =
     (case st of (context, lgs) \<Rightarrow>
        (case map_of (known_columns (domain context)) col of
           Some profile_role \<Rightarrow>
             let role = to_pipeline_role profile_role in
             Inr (context\<lparr>schema := AList.update col role (schema context)\<rparr>,
                  lgs @ [role_log (job_id context) col role True])
         | None \<Rightarrow>
             (case heuristic_role lib sample_df col of
                Inl exc \<Rightarrow> Inl exc
              | Inr (role, ws) \<Rightarrow>
                  Inr (context\<lparr>schema := AList.update col role (schema context),
                               warnings := warnings context @ ws\<rparr>,
                       lgs @ [role_log (job_id context) col role False]))))"

fun schema_loop ::
  "pandas_lib \<Rightarrow> dataframe \<Rightarrow> string list \<Rightarrow> pipeline_context \<times> log_entry list
     \<Rightarrow> string + (pipeline_context \<times> log_entry list)" where
  "schema_loop lib sample_df [] st = Inr st"
| "schema_loop lib sample_df (col # cols) st =
     (case schema_step lib sample_df col st of
        Inl exc \<Rightarrow> Inl exc
      | Inr st' \<Rightarrow> schema_loop lib sample_df cols st')"

text \<open>\<open>df.head(min(10000, len(df)), compute=True)\<close> on a Dask table, the table itself otherwise.\<close>

definition schema_sample :: "dataframe \<Rightarrow> dataframe" where
  "schema_sample df =
     (if dask df
      then \<lparr>dask = False,
            columns = map (\<lambda>c. c\<lparr>cells := take (min 10000 (df_len df)) (cells c)\<rparr>) (columns df)\<rparr>
      else df)"

definition SchemaAnalyzer_run ::
  "pandas_lib \<Rightarrow> dataframe \<Rightarrow> pipeline_context \<Rightarrow> string + (step_result \<times> pipeline_context)" where
  "SchemaAnalyzer_run lib df context =
     (case schema_loop lib (schema_sample df) (df_columns df) (context, []) of
        Inl exc \<Rightarrow> Inl exc
      | Inr (context', lgs) \<Rightarrow>
          Inr (\<lparr>sr_df = df, sr_logs = lgs, sr_warnings = [], sr_modified_columns = []\<rparr>, context'))"

text \<open>Example inputs.\<close>

definition plib0 :: pandas_lib where
  "plib0 = \<lparr>to_datetime = (\<lambda>cs. Inr (map (\<lambda>c. Null) cs)), astype_str = (\<lambda>c. ''nan'')\<rparr>"

definition long_note :: "nat \<Rightarrow> cell" where
  "long_note i = Str (replicate 60 CHR ''a'' @ str_nat i)"

definition notes_col :: column where
  "notes_col = \<lparr>cname = ''notes'', cdtype = Object_dtype, cells = map long_note [0..<20]\<rparr>"

definition notes_df :: dataframe where
  "notes_df = \<lparr>dask = False, columns =
     [notes_col,
      \<lparr>cname = ''status'', cdtype = Object_dtype,
       cells = concat (replicate 10 [Str ''open'', Str ''closed''])\<rparr>]\<rparr>"

text \<open>The fixture \<open>dirty_df\<close> of \<open>tests/test_pipeline.py\<close>, dates as day numbers.\<close>

definition dirty_df :: dataframe where
  "dirty_df = \<lparr>dask = False, columns =
     [\<lparr>cname = ''id'', cdtype = Int_dtype, cells = map (\<lambda>i. Num (of_nat i)) [0..<100]\<rparr>,
      \<lparr>cname = ''age'', cdtype = Float_dtype,
       cells = [Num 25, Null, Num 30, Num 150, Null, Num 22] @ replicate 94 (Num 25)\<rparr>,
      \<lparr>cname = ''name'', cdtype = Object_dtype,
       cells = concat (replicate 50 [Str ''Alice'', Str ''Bob''])\<rparr>,
      \<lparr>cname = ''date_joined'', cdtype = Datetime_dtype,
       cells = map (\<lambda>i. Dt (int i)) [0..<100]\<rparr>]\<rparr>"

definition generic_ctx :: pipeline_context where
  "generic_ctx = \<lparr>dataset_id = ''d1'', domain = ''generic'', job_id = ''1'', schema = [],
     is_dask = False, warnings = []\<rparr>"

definition log_role :: "log_entry \<Rightarrow> jval option" where
  "log_role l = map_of (after_value l) ''role''"

text \<open>What holds of the context and the log list once the columns \<open>finished\<close> are analysed.\<close>

definition roles_assigned :: "string list \<Rightarrow> pipeline_context \<times> log_entry list \<Rightarrow> bool" where
  "roles_assigned finished st =
     (case st of (context, lgs) \<Rightarrow>
        list_all (\<lambda>c. \<exists>r. r \<in> set pipeline_roles \<and> map_of (schema context) c = Some r) finished
      \<and> map column_name lgs = map Some finished
      \<and> list_all (\<lambda>l. action l = ''role_assignment''
                       \<and> (\<exists>r. r \<in> set pipeline_roles \<and> log_role l = Some (JStr r))) lgs)"

lemma to_pipeline_role_in: "to_pipeline_role r \<in> set pipeline_roles"
proof (cases "map_of PIPELINE_ROLE_ALIASES (py_lower (py_strip r))")
  case None
  then show ?thesis by (simp add: to_pipeline_role_def pipeline_roles_def)
next
  case (Some v)
  then have "(py_lower (py_strip r), v) \<in> set PIPELINE_ROLE_ALIASES" by (rule map_of_SomeD)
  then have "v \<in> snd ` set PIPELINE_ROLE_ALIASES" by force
  moreover have "snd ` set PIPELINE_ROLE_ALIASES \<subseteq> set pipeline_roles"
    by (simp add: PIPELINE_ROLE_ALIASES_def pipeline_roles_def)
  ultimately show ?thesis using Some by (auto simp: to_pipeline_role_def)
qed

lemma text_detection_in: "text_detection lib cs \<in> set pipeline_roles"
  by (simp add: text_detection_def pipeline_roles_def Let_def split: sum.splits)

lemma heuristic_role_in:
  "heuristic_role lib s col = Inr (r, ws) \<Longrightarrow> r \<in> set pipeline_roles"
  using text_detection_in [of lib]
  by (auto simp: heuristic_role_def Let_def pipeline_roles_def split: sum.splits if_splits)

lemma schema_step_Inr:
  assumes "schema_step lib s col (ctx, lgs) = Inr (ctx', lgs')"
  shows "\<exists>r b. r \<in> set pipeline_roles
           \<and> schema ctx' = AList.update col r (schema ctx)
           \<and> lgs' = lgs @ [role_log (job_id ctx) col r b]"
proof (cases "map_of (known_columns (domain ctx)) col")
  case (Some p)
  then show ?thesis
    using assms to_pipeline_role_in [of p] by (auto simp: schema_step_def Let_def)
next
  case None
  then show ?thesis
    using assms heuristic_role_in [of lib s col]
    by (auto simp: schema_step_def split: sum.splits prod.splits)
qed

lemma role_log_good:
  "r \<in> set pipeline_roles \<Longrightarrow>
     action (role_log job col r b) = ''role_assignment''
   \<and> column_name (role_log job col r b) = Some col
   \<and> log_role (role_log job col r b) = Some (JStr r)"
  by (simp add: role_log_def log_role_def)

lemma roles_assigned_step:
  assumes "schema_step lib s col (ctx, lgs) = Inr (ctx', lgs')"
    and "roles_assigned finished (ctx, lgs)"
  shows "roles_assigned (finished @ [col]) (ctx', lgs')"
proof -
  obtain r b where r: "r \<in> set pipeline_roles"
    and sch: "schema ctx' = AList.update col r (schema ctx)"
    and lg: "lgs' = lgs @ [role_log (job_id ctx) col r b]"
    using schema_step_Inr [OF assms(1)] by blast
  have m: "map_of (schema ctx') = (map_of (schema ctx))(col \<mapsto> r)"
    by (simp add: sch update_conv')
  have old: "list_all (\<lambda>c. \<exists>r. r \<in> set pipeline_roles \<and> map_of (schema ctx') c = Some r) finished"
    using assms(2) r by (auto simp: roles_assigned_def list_all_iff m)
  have new: "\<exists>r. r \<in> set pipeline_roles \<and> map_of (schema ctx') col = Some r"
    using r by (simp add: m)
  show ?thesis
    using assms(2) old new r role_log_good [OF r, of "job_id ctx" col b]
    by (auto simp: roles_assigned_def lg)
qed

lemma roles_assigned_loop:
  assumes "schema_loop lib s cols st = Inr st'" and "roles_assigned finished st"
  shows "roles_assigned (finished @ cols) st'"
  using assms
proof (induction cols arbitrary: st finished)
  case Nil
  then show ?case by simp
next
  case (Cons col cols)
  obtain ctx lgs where st: "st = (ctx, lgs)" by (cases st)
  from Cons.prems(1) obtain st1 where s1: "schema_step lib s col st = Inr st1"
    and l1: "schema_loop lib s cols st1 = Inr st'"
    by (auto split: sum.splits)
  obtain ctx1 lgs1 where st1: "st1 = (ctx1, lgs1)" by (cases st1)
  have "roles_assigned (finished @ [col]) st1"
    using roles_assigned_step [of lib s col ctx lgs ctx1 lgs1 finished] s1 Cons.prems(2) st st1 by simp
  then have "roles_assigned ((finished @ [col]) @ cols) st'" using Cons.IH [OF l1] by blast
  then show ?case by simp
qed

lemma filter_unique_label:
  assumes "distinct (map cname cs)" and "col \<in> set (map cname cs)"
  shows "\<exists>c. filter (\<lambda>c. cname c = col) cs = [c]"
  using assms
proof (induction cs)
  case Nil
  then show ?case by simp
next
  case (Cons a cs)
  show ?case
  proof (cases "cname a = col")
    case True
    have "col \<notin> cname ` set cs" using True Cons.prems(1) by auto
    then have "\<forall>x\<in>set cs. cname x \<noteq> col" by blast
    then have "filter (\<lambda>c. cname c = col) cs = []" by (simp add: filter_empty_conv)
    then show ?thesis using True by simp
  next
    case False
    then show ?thesis using Cons by auto
  qed
qed

lemma df_getitem_distinct:
  assumes "distinct (df_columns df)" and "col \<in> set (df_columns df)"
  shows "\<exists>c. df_getitem df col = Inr c"
proof -
  obtain c where "filter (\<lambda>c. cname c = col) (columns df) = [c]"
    using filter_unique_label [of "columns df" col] assms by (auto simp: df_columns_def)
  then show ?thesis by (simp add: df_getitem_def)
qed

lemma heuristic_role_total:
  assumes "distinct (df_columns s)" and "col \<in> set (df_columns s)" and "0 < df_len s"
  shows "\<exists>r ws. heuristic_role lib s col = Inr (r, ws)"
proof -
  obtain c where "df_getitem s col = Inr c" using df_getitem_distinct [OF assms(1,2)] by blast
  then show ?thesis using assms(3) by (simp add: heuristic_role_def Let_def)
qed

lemma schema_step_total:
  assumes "distinct (df_columns s)" and "col \<in> set (df_columns s)" and "0 < df_len s"
  shows "\<exists>st'. schema_step lib s col st = Inr st'"
proof -
  obtain ctx lgs where st: "st = (ctx, lgs)" by (cases st)
  obtain r ws where "heuristic_role lib s col = Inr (r, ws)"
    using heuristic_role_total [OF assms] by blast
  then show ?thesis by (simp add: st schema_step_def Let_def split: option.splits)
qed

lemma schema_loop_total:
  assumes "distinct (df_columns s)" and "set cols \<subseteq> set (df_columns s)" and "0 < df_len s"
  shows "\<exists>st'. schema_loop lib s cols st = Inr st'"
  using assms(2)
proof (induction cols arbitrary: st)
  case Nil
  then show ?case by simp
next
  case (Cons col cols)
  obtain st1 where "schema_step lib s col st = Inr st1"
    using schema_step_total [OF assms(1) _ assms(3), of col lib st] Cons.prems by auto
  then show ?case using Cons by auto
qed

lemma schema_sample_columns: "df_columns (schema_sample df) = df_columns df"
  by (simp add: schema_sample_def df_columns_def comp_def)

lemma schema_sample_len: "0 < df_len df \<Longrightarrow> 0 < df_len (schema_sample df)"
  by (auto simp: schema_sample_def df_len_def split: list.splits)

text \<open>
  Claim C10. When \<open>SchemaAnalyzer.run\<close> returns, the table is the one it was given; the
  schema of the context maps every column of the table to one of the six roles; the log
  has one entry per column, in the order of the columns, each a \<open>role_assignment\<close>
  naming one of the six roles. And the step does return for a table with at least one row
  and pairwise distinct column labels.
\<close>

theorem SchemaAnalyzer_run_assigns_roles:
  "(SchemaAnalyzer_run lib df ctx = Inr (res, ctx') \<longrightarrow>
       sr_df res = df
     \<and> list_all (\<lambda>c. \<exists>r. r \<in> set pipeline_roles \<and> map_of (schema ctx') c = Some r) (df_columns df)
     \<and> map column_name (sr_logs res) = map Some (df_columns df)
     \<and> list_all (\<lambda>l. action l = ''role_assignment''
                     \<and> (\<exists>r. r \<in> set pipeline_roles \<and> log_role l = Some (JStr r))) (sr_logs res))
   \<and> (distinct (df_columns df) \<and> 0 < df_len df \<longrightarrow>
        (\<exists>res ctx'. SchemaAnalyzer_run lib df ctx = Inr (res, ctx')))"
proof (intro conjI impI)
  assume run: "SchemaAnalyzer_run lib df ctx = Inr (res, ctx')"
  then obtain lgs where loop: "schema_loop lib (schema_sample df) (df_columns df) (ctx, []) = Inr (ctx', lgs)"
    and res: "res = \<lparr>sr_df = df, sr_logs = lgs, sr_warnings = [], sr_modified_columns = []\<rparr>"
    by (auto simp: SchemaAnalyzer_run_def split: sum.splits prod.splits)
  have "roles_assigned [] (ctx, [])" by (simp add: roles_assigned_def)
  then have ra: "roles_assigned ([] @ df_columns df) (ctx', lgs)"
    using roles_assigned_loop [OF loop] by blast
  show "sr_df res = df" by (simp add: res)
  show "list_all (\<lambda>c. \<exists>r. r \<in> set pipeline_roles \<and> map_of (schema ctx') c = Some r) (df_columns df)"
    using ra by (simp add: roles_assigned_def)
  show "map column_name (sr_logs res) = map Some (df_columns df)"
    using ra by (simp add: roles_assigned_def res)
  show "list_all (\<lambda>l. action l = ''role_assignment''
                     \<and> (\<exists>r. r \<in> set pipeline_roles \<and> log_role l = Some (JStr r))) (sr_logs res)"
    using ra by (simp add: roles_assigned_def res)
next
  assume a: "distinct (df_columns df) \<and> 0 < df_len df"
  have "distinct (df_columns (schema_sample df))" using a by (simp add: schema_sample_columns)
  moreover have "set (df_columns df) \<subseteq> set (df_columns (schema_sample df))"
    by (simp add: schema_sample_columns)
  moreover have "0 < df_len (schema_sample df)" using a by (simp add: schema_sample_len)
  ultimately obtain st' where
    "schema_loop lib (schema_sample df) (df_columns df) (ctx, []) = Inr st'"
    using schema_loop_total by blast
  then show "\<exists>res ctx'. SchemaAnalyzer_run lib df ctx = Inr (res, ctx')"
    by (cases st') (simp add: SchemaAnalyzer_run_def)
qed

theorem SchemaAnalyzer_run_assigns_roles_witness:
  "distinct (df_columns notes_df) \<and> 0 < df_len notes_df
   \<and> (\<exists>res ctx'. SchemaAnalyzer_run plib0 notes_df ctx0 = Inr (res, ctx')
        \<and> sr_df res = notes_df
        \<and> list_all (\<lambda>c. \<exists>r. r \<in> set pipeline_roles \<and> map_of (schema ctx') c = Some r)
             (df_columns notes_df)
        \<and> map column_name (sr_logs res) = map Some (df_columns notes_df))"
proof -
  have d: "distinct (df_columns notes_df)" by code_simp
  have l: "0 < df_len notes_df" by code_simp
  obtain res ctx' where r: "SchemaAnalyzer_run plib0 notes_df ctx0 = Inr (res, ctx')"
    using SchemaAnalyzer_run_assigns_roles [of plib0 notes_df ctx0] d l by blast
  show ?thesis
    using SchemaAnalyzer_run_assigns_roles [of plib0 notes_df ctx0 res ctx'] d l r by blast
qed

text \<open>
  Claim C3: a string column whose uniqueness ratio is above 0.95, whose name has no id-like
  token and whose dtype is not integer goes on to rule 4. The code at the column
  \<open>notes\<close> (20 distinct strings of more than 60 characters, none a date): the branch
  \<open>elif (nunique / len(sample_df)) > 0.95\<close> is taken, its inner \<open>if\<close> fails, and the
  role stays \<open>feature_col\<close>; the text detection of rule 4, which gives \<open>text_col\<close> on
  these cells, is never run.
\<close>

theorem SchemaAnalyzer_high_uniqueness_skips_rule4:
  "cdtype notes_col = Object_dtype
   \<and> 19 / 20 < (of_nat (nunique (cells notes_col)) / of_nat (df_len notes_df) :: rat)
   \<and> \<not> py_in ''id'' (py_lower (cname notes_col))
   \<and> \<not> py_in ''key'' (py_lower (cname notes_col))
   \<and> \<not> py_in ''uuid'' (py_lower (cname notes_col))
   \<and> \<not> is_integer_dtype (cdtype notes_col)
   \<and> text_detection plib0 (cells notes_col) = ''text_col''
   \<and> (case SchemaAnalyzer_run plib0 notes_df ctx0 of
         Inl exc \<Rightarrow> False
       | Inr (res, ctx') \<Rightarrow> map_of (schema ctx') ''notes'' = Some ''feature_col'')"
  by code_simp

lemma nunique_distinct_dates: "nunique (map (\<lambda>i. Dt (int i)) [0..<n]) = n"
proof -
  have d: "distinct (map (\<lambda>i. Dt (int i)) [0..<n])"
    by (simp add: distinct_map inj_on_def)
  have "dropna (map (\<lambda>i. Dt (int i)) [0..<n]) = map (\<lambda>i. Dt (int i)) [0..<n]"
    by (simp add: dropna_def filter_id_conv)
  then show ?thesis using d by (simp add: nunique_def distinct_remdups_id)
qed

text \<open>
  The same branch on the repository's own test: \<open>test_schema_analyzer\<close> asserts
  \<open>ctx.schema["date_joined"] == "datetime_col"\<close> for a column of 100 distinct dates; the
  step assigns \<open>feature_col\<close>, rule 5 (native datetime dtype) being skipped as well.
\<close>

lemma SchemaAnalyzer_test_fixture_date_joined:
  "map_of (known_columns (domain generic_ctx)) ''date_joined'' = None
   \<and> heuristic_role lib dirty_df ''date_joined'' = Inr (''feature_col'', [])"
proof -
  have k: "map_of (known_columns (domain generic_ctx)) ''date_joined'' = None" by code_simp
  have g: "df_getitem dirty_df ''date_joined''
      = Inr \<lparr>cname = ''date_joined'', cdtype = Datetime_dtype, cells = map (\<lambda>i. Dt (int i)) [0..<100]\<rparr>"
    by (simp add: df_getitem_def dirty_df_def)
  have l: "df_len dirty_df = 100" by (simp add: df_len_def dirty_df_def)
  have t: "\<not> py_in ''id'' (py_lower ''date_joined'')" "\<not> py_in ''key'' (py_lower ''date_joined'')"
    "\<not> py_in ''uuid'' (py_lower ''date_joined'')"
    by code_simp+
  show ?thesis
    using t
    by (simp add: k heuristic_role_def g l nunique_distinct_dates is_integer_dtype_def)
qed

section \<open>Loader (\<open>pipeline/loader.py\<close>)\<close>

text \<open>
  Exceptions raised by the file system and by the pandas, Dask and zipfile readers, by
  class. \<open>UnicodeDecodeError\<close> is a subclass of \<open>ValueError\<close>.
\<close>

datatype py_exn =
    UnicodeDecodeError string
  | ValueError string
  | MemoryError string
  | KeyError string
  | OSError string
  | BadZipFile string
  | OtherError string

fun exn_str :: "py_exn \<Rightarrow> string" where
  "exn_str (UnicodeDecodeError m) = m"
| "exn_str (ValueError m) = m"
| "exn_str (MemoryError m) = m"
| "exn_str (KeyError m) = m"
| "exn_str (OSError m) = m"
| "exn_str (BadZipFile m) = m"
| "exn_str (OtherError m) = m"

fun is_ValueError :: "py_exn \<Rightarrow> bool" where
  "is_ValueError (UnicodeDecodeError m) = True"
| "is_ValueError (ValueError m) = True"
| "is_ValueError e = False"

text \<open>
  What \<open>load\<close> raises: the two exception classes of the module, or an exception of a
  reader that no handler of \<open>load\<close> catches.
\<close>

datatype load_failure =
    DatasetLoadError string
  | ValidationError string
  | Propagated py_exn

text \<open>The format descriptor \<open>file_type\<close>, a dict with optional keys.\<close>

record file_type =
  ft_format :: "string option"
  ft_delimiter :: "string option"
  ft_encoding :: "string option"

record DataFrameResult =
  res_df :: dataframe
  row_count :: nat
  col_count :: nat
  memory_usage_mb :: rat
  detected_dtypes :: "(string \<times> string) list"
  res_is_dask :: bool
  res_warnings :: "string list"

text \<open>
  The world outside the loader: the file system and the readers, each a function of the
  path and of the arguments \<open>load\<close> passes. \<open>Inl\<close> is a raised exception. The readers'
  Dask tables have \<open>dask = True\<close>. \<open>sniff_dtypes\<close> is the method of that name, taken
  by its result; \<open>dd_len\<close> is \<open>len(df)\<close> of a Dask table.
\<close>

record loader_env =
  getsize :: "string \<Rightarrow> py_exn + nat"
  mkdtemp :: string
  zip_extract :: "string \<Rightarrow> string \<Rightarrow> py_exn + string list"
  sniff_dtypes :: "string \<Rightarrow> file_type \<Rightarrow> py_exn + (string \<times> string) list"
  dd_read_csv :: "string \<Rightarrow> string \<Rightarrow> ((string \<times> string) list option \<times> string) option \<Rightarrow> py_exn + dataframe"
  dd_read_parquet :: "string \<Rightarrow> py_exn + dataframe"
  pd_read_csv :: "string \<Rightarrow> string \<Rightarrow> (string \<times> string) list option \<Rightarrow> string \<Rightarrow> bool \<Rightarrow> py_exn + dataframe"
  pd_read_excel :: "string \<Rightarrow> py_exn + dataframe"
  pd_read_parquet :: "string \<Rightarrow> py_exn + dataframe"
  pd_read_json :: "string \<Rightarrow> bool \<Rightarrow> py_exn + dataframe"
  memory_usage :: "dataframe \<Rightarrow> rat"

definition get_or :: "'a option \<Rightarrow> 'a \<Rightarrow> 'a" where
  "get_or v d = (case v of Some x \<Rightarrow> x | None \<Rightarrow> d)"

text \<open>
  Step 1, the zip archive: the path and the descriptor to go on with. Opening the archive
  is outside every \<open>try\<close>.
\<close>

definition zip_handling ::
  "loader_env \<Rightarrow> string \<Rightarrow> file_type \<Rightarrow> load_failure + (string \<times> file_type)" where
  "zip_handling env file_path ft =
     (if ft_format ft = Some ''zip'' then
        (case zip_extract env file_path (mkdtemp env) of
           Inl exc \<Rightarrow> Inl (Propagated exc)
         | Inr extracted_files \<Rightarrow>
             if extracted_files = [] then Inl (ValidationError ''ZIP file is empty'')
             else Inr (mkdtemp env @ ''/'' @ hd extracted_files,
                       ft\<lparr>ft_format := Some ''csv'', ft_delimiter := Some '',''\<rparr>))
      else Inr (file_path, ft))"

text \<open>
  The body of the \<open>try\<close> of step 3: the engine flag and the table (\<open>None\<close> when no
  branch of the format matches), or the exception raised. \<open>file_type['format']\<close> raises
  \<open>KeyError\<close> without the key.
\<close>

definition primary_read ::
  "loader_env \<Rightarrow> string \<Rightarrow> file_type \<Rightarrow> (string \<times> string) list option \<Rightarrow> rat
     \<Rightarrow> py_exn + (bool \<times> dataframe option)" where
  "primary_read env file_path ft dtype_map file_size_mb =
     (let encoding = get_or (ft_encoding ft) ''utf-8''; sep = get_or (ft_delimiter ft) '','' in
      case ft_format ft of
        None \<Rightarrow> Inl (KeyError (py_quote ''format''))
      | Some fmt \<Rightarrow>
          if 2000 < file_size_mb then
            (if fmt = ''csv'' then
               (case dd_read_csv env file_path sep (Some (dtype_map, encoding)) of
                  Inl exc \<Rightarrow> Inl exc | Inr df \<Rightarrow> Inr (True, Some df))
             else if fmt = ''parquet'' then
               (case dd_read_parquet env file_path of
                  Inl exc \<Rightarrow> Inl exc | Inr df \<Rightarrow> Inr (True, Some df))
             else Inr (True, None))
          else
            (if fmt = ''csv'' then
               (case pd_read_csv env file_path sep dtype_map encoding (500 < file_size_mb) of
                  Inl exc \<Rightarrow> Inl exc | Inr df \<Rightarrow> Inr (False, Some df))
             else if fmt = ''excel'' then
               (case pd_read_excel env file_path of
                  Inl exc \<Rightarrow> Inl exc | Inr df \<Rightarrow> Inr (False, Some df))
             else if fmt = ''parquet'' then
               (case pd_read_parquet env file_path of
                  Inl exc \<Rightarrow> Inl exc | Inr df \<Rightarrow> Inr (False, Some df))
             else if fmt = ''json'' then
               (case pd_read_json env file_path True of
                  Inr df \<Rightarrow> Inr (False, Some df)
                | Inl exc \<Rightarrow>
                    if is_ValueError exc then
                      (case pd_read_json env file_path False of
                         Inl exc' \<Rightarrow> Inl exc' | Inr df \<Rightarrow> Inr (False, Some df))
                    else Inl exc)
             else Inr (False, None)))"

text \<open>
  Step 3 with its handlers: the warnings, the engine flag and the table. The reads of the
  two retrying handlers are outside the \<open>try\<close>.
\<close>

definition read_with_fallback ::
  "loader_env \<Rightarrow> string \<Rightarrow> file_type \<Rightarrow> (string \<times> string) list option \<Rightarrow> rat \<Rightarrow> string list
     \<Rightarrow> load_failure + (string list \<times> bool \<times> dataframe option)" where
  "read_with_fallback env file_path ft dtype_map file_size_mb ws =
     (let encoding = get_or (ft_encoding ft) ''utf-8''; sep = get_or (ft_delimiter ft) '','' in
      case primary_read env file_path ft dtype_map file_size_mb of
        Inr (dsk, df) \<Rightarrow> Inr (ws, dsk, df)
      | Inl (UnicodeDecodeError m) \<Rightarrow>
          (case pd_read_csv env file_path sep None ''latin-1'' False of
             Inl exc \<Rightarrow> Inl (Propagated exc)
           | Inr df \<Rightarrow>
               Inr (ws @ [''Encoding '' @ py_quote encoding @ '' failed. Retrying with ''
                            @ py_quote ''latin-1''],
                    2000 < file_size_mb, Some df))
      | Inl (MemoryError m) \<Rightarrow>
          (case dd_read_csv env file_path sep None of
             Inl exc \<Rightarrow> Inl (Propagated exc)
           | Inr df \<Rightarrow>
               Inr (ws @ [''Memory error encountered during Pandas load. Falling back to Dask.''],
                    True, Some df))
      | Inl exc \<Rightarrow> Inl (DatasetLoadError (''Corrupted file or load failure: '' @ exn_str exc)))"

definition DatasetLoader_load ::
  "loader_env \<Rightarrow> string list \<Rightarrow> string \<Rightarrow> file_type \<Rightarrow> load_failure + DataFrameResult" where
  "DatasetLoader_load env self_warnings file_path0 ft0 =
     (case getsize env file_path0 of
        Inl exc \<Rightarrow> Inl (Propagated exc)
      | Inr size_bytes \<Rightarrow>
          let file_size_mb = (of_nat size_bytes / (1024 * 1024) :: rat) in
          case zip_handling env file_path0 ft0 of
            Inl failure \<Rightarrow> Inl failure
          | Inr (file_path, ft) \<Rightarrow>
              let (ws, dtype_map) =
                    (case sniff_dtypes env file_path ft of
                       Inl exc \<Rightarrow> (self_warnings @ [''Failed to sniff dtypes: '' @ exn_str exc], None)
                     | Inr m \<Rightarrow> (self_warnings, Some m)) in
              case read_with_fallback env file_path ft dtype_map file_size_mb ws of
                Inl failure \<Rightarrow> Inl failure
              | Inr (ws', dsk, None) \<Rightarrow> Inl (ValidationError ''Dataset is empty or format unrecognized.'')
              | Inr (ws', dsk, Some df) \<Rightarrow>
                  if length (columns df) = 0
                  then Inl (ValidationError ''Dataset is empty or format unrecognized.'')
                  else
                    let cc = length (columns df);
                        rc = df_len df;
                        mem = (if dsk then 0 else memory_usage env df) in
                    if rc = 0 then Inl (ValidationError ''File contains no rows.'')
                    else Inr \<lparr>res_df = df, row_count = rc, col_count = cc, memory_usage_mb = mem,
                              detected_dtypes = get_or dtype_map [], res_is_dask = dsk,
                              res_warnings = ws'\<rparr>)"

text \<open>
  Example worlds. In \<open>bad_zip_env\<close> the file is not a zip archive. In \<open>bad_csv_env\<close>
  the CSV file does not decode as UTF-8 and does not parse as latin-1. In \<open>good_env\<close>
  every reader gives the table \<open>dup_df\<close>.
\<close>

definition good_env :: loader_env where
  "good_env = \<lparr>getsize = (\<lambda>p. Inr 4096), mkdtemp = ''/tmp/tmpdir'',
     zip_extract = (\<lambda>p d. Inr [''data.csv'']),
     sniff_dtypes = (\<lambda>p ft. Inr []),
     dd_read_csv = (\<lambda>p sep kw. Inr (dup_df\<lparr>dask := True\<rparr>)),
     dd_read_parquet = (\<lambda>p. Inr (dup_df\<lparr>dask := True\<rparr>)),
     pd_read_csv = (\<lambda>p sep dt enc lm. Inr dup_df),
     pd_read_excel = (\<lambda>p. Inr dup_df),
     pd_read_parquet = (\<lambda>p. Inr dup_df),
     pd_read_json = (\<lambda>p ln. Inr dup_df),
     memory_usage = (\<lambda>df. 1 / 1024)\<rparr>"

definition bad_zip_env :: loader_env where
  "bad_zip_env = good_env\<lparr>zip_extract := (\<lambda>p d. Inl (BadZipFile ''File is not a zip file''))\<rparr>"

definition bad_csv_env :: loader_env where
  "bad_csv_env = good_env\<lparr>pd_read_csv := (\<lambda>p sep dt enc lm.
       if enc = ''latin-1'' then Inl (OtherError ''Error tokenizing data'')
       else Inl (UnicodeDecodeError ''invalid start byte''))\<rparr>"

definition csv_type :: file_type where
  "csv_type = \<lparr>ft_format = Some ''csv'', ft_delimiter = Some '','', ft_encoding = Some ''utf-8''\<rparr>"

definition zip_type :: file_type where
  "zip_type = \<lparr>ft_format = Some ''zip'', ft_delimiter = None, ft_encoding = Some ''utf-8''\<rparr>"

text \<open>
  What holds of the loader on every input: a load that returns gives a table with at least
  one row and one column; an exception of the first read other than a
  \<open>UnicodeDecodeError\<close> or a \<open>MemoryError\<close> becomes a \<open>DatasetLoadError\<close>; a read
  that gives no table, no column or no row becomes a \<open>ValidationError\<close>.
\<close>

lemma DatasetLoader_load_Inr:
  assumes "DatasetLoader_load env ws p ft = Inr r"
  shows "0 < row_count r \<and> 0 < col_count r
       \<and> row_count r = df_len (res_df r) \<and> col_count r = length (columns (res_df r))"
  using assms
  by (auto simp: DatasetLoader_load_def Let_def
      split: sum.splits prod.splits option.splits if_splits)

lemma primary_failure_wrapped:
  assumes "primary_read env p ft dm sz = Inl exc"
    and "\<forall>m. exc \<noteq> UnicodeDecodeError m" and "\<forall>m. exc \<noteq> MemoryError m"
  shows "read_with_fallback env p ft dm sz ws
         = Inl (DatasetLoadError (''Corrupted file or load failure: '' @ exn_str exc))"
  using assms by (cases exc) (simp_all add: read_with_fallback_def Let_def)

lemma degenerate_result_is_validation:
  assumes "getsize env p = Inr n" and "zip_handling env p ft = Inr (p', ft')"
    and "read_with_fallback env p' ft'
           (case sniff_dtypes env p' ft' of Inl exc \<Rightarrow> None | Inr m \<Rightarrow> Some m)
           (of_nat n / (1024 * 1024))
           (case sniff_dtypes env p' ft' of
              Inl exc \<Rightarrow> ws @ [''Failed to sniff dtypes: '' @ exn_str exc] | Inr m \<Rightarrow> ws)
         = Inr (ws', dsk, odf)"
    and "odf = None \<or> (\<exists>df. odf = Some df \<and> (columns df = [] \<or> df_len df = 0))"
  shows "\<exists>msg. DatasetLoader_load env ws p ft = Inl (ValidationError msg)"
  using assms
  by (auto simp: DatasetLoader_load_def Let_def split: sum.splits)

lemma bad_zip_env_fields:
  "getsize bad_zip_env p = Inr 4096"
  "zip_extract bad_zip_env p d = Inl (BadZipFile ''File is not a zip file'')"
  by (simp_all add: bad_zip_env_def good_env_def)

lemma bad_csv_env_fields:
  "getsize bad_csv_env p = Inr 4096"
  "sniff_dtypes bad_csv_env p ft = Inr []"
  "pd_read_csv bad_csv_env p sep dt ''utf-8'' lm = Inl (UnicodeDecodeError ''invalid start byte'')"
  "pd_read_csv bad_csv_env p sep dt ''latin-1'' lm = Inl (OtherError ''Error tokenizing data'')"
  by (simp_all add: bad_csv_env_def good_env_def)

lemma file_type_fields:
  "ft_format zip_type = Some ''zip''"
  "ft_format csv_type = Some ''csv''" "ft_delimiter csv_type = Some '',''"
  "ft_encoding csv_type = Some ''utf-8''"
  by (simp_all add: zip_type_def csv_type_def)

text \<open>
  Claim C6: corrupt or unreadable bytes raise \<open>DatasetLoadError\<close>. The code at a file
  that is not a zip archive, with the descriptor \<open>zip\<close>: \<open>zipfile.ZipFile\<close> is
  opened outside every \<open>try\<close>, and its \<open>BadZipFile\<close> leaves \<open>load\<close> as it is. And
  at a CSV file that does not decode and does not parse: the first read raises
  \<open>UnicodeDecodeError\<close>, the handler reads again as latin-1 outside the \<open>try\<close>, and
  the parser's exception leaves \<open>load\<close> as it is. Neither is a \<open>DatasetLoadError\<close> or
  a \<open>ValidationError\<close>.
\<close>

theorem DatasetLoader_load_unwrapped_failures:
  "DatasetLoader_load bad_zip_env [] ''upload.zip'' zip_type
     = Inl (Propagated (BadZipFile ''File is not a zip file''))
   \<and> DatasetLoader_load bad_csv_env [] ''upload.csv'' csv_type
     = Inl (Propagated (OtherError ''Error tokenizing data''))"
proof -
  have z: "DatasetLoader_load bad_zip_env [] ''upload.zip'' zip_type
     = Inl (Propagated (BadZipFile ''File is not a zip file''))"
    by (simp add: DatasetLoader_load_def Let_def zip_handling_def bad_zip_env_fields file_type_fields)
  have p: "primary_read bad_csv_env ''upload.csv'' csv_type (Some []) sz
     = Inl (UnicodeDecodeError ''invalid start byte'')" if "sz \<le> 2000" for sz
    using that
    by (simp add: primary_read_def Let_def get_or_def bad_csv_env_fields file_type_fields)
  have r: "read_with_fallback bad_csv_env ''upload.csv'' csv_type (Some []) sz []
     = Inl (Propagated (OtherError ''Error tokenizing data''))" if "sz \<le> 2000" for sz
    using that
    by (simp add: read_with_fallback_def Let_def p get_or_def bad_csv_env_fields file_type_fields)
  have c: "DatasetLoader_load bad_csv_env [] ''upload.csv'' csv_type
     = Inl (Propagated (OtherError ''Error tokenizing data''))"
    using r [of "1 / 256"]
    by (simp add: DatasetLoader_load_def Let_def zip_handling_def bad_csv_env_fields file_type_fields)
  show ?thesis using z c by simp
qed

section \<open>Type Fixer (\<open>steps/type_fixer.py\<close>)\<close>

text \<open>
  The pandas calls taken as parameters: \<open>parse_number\<close> is what
  \<open>pd.to_numeric(_, errors='coerce')\<close> makes of a string (\<open>None\<close> when it does not
  parse), \<open>tf_to_datetime\<close> is \<open>pd.to_datetime(series, errors='coerce')\<close> (\<open>Inl\<close> when
  it raises), \<open>tf_str\<close> is \<open>str(x)\<close> of a cell that is not a string.
\<close>

record typefix_lib =
  parse_number :: "string \<Rightarrow> rat option"
  tf_to_datetime :: "cell list \<Rightarrow> string + cell list"
  tf_str :: "cell \<Rightarrow> string"

definition tf_cell_str :: "typefix_lib \<Rightarrow> cell \<Rightarrow> string" where
  "tf_cell_str lib c = (case c of Str s \<Rightarrow> s | _ \<Rightarrow> tf_str lib c)"

text \<open>\<open>pd.to_numeric(series, errors='coerce')\<close>, cell by cell: what does not parse becomes a null.\<close>

definition to_numeric_cell :: "typefix_lib \<Rightarrow> cell \<Rightarrow> cell" where
  "to_numeric_cell lib c =
     (case c of
        Str s \<Rightarrow> (case parse_number lib s of Some x \<Rightarrow> Num x | None \<Rightarrow> Null)
      | Num x \<Rightarrow> Num x
      | Boolv b \<Rightarrow> Num (if b then 1 else 0)
      | _ \<Rightarrow> Null)"

text \<open>Step 1, whitespace: on pandas only strings are stripped, on Dask every cell is made a string first.\<close>

definition strip_cells :: "typefix_lib \<Rightarrow> bool \<Rightarrow> cell list \<Rightarrow> cell list" where
  "strip_cells lib dsk cs =
     (if dsk then map (\<lambda>x. Str (py_strip (tf_cell_str lib x))) cs
      else map (\<lambda>x. case x of Str s \<Rightarrow> Str (py_strip s) | _ \<Rightarrow> x) cs)"

definition coercion_sample :: "bool \<Rightarrow> nat \<Rightarrow> cell list \<Rightarrow> cell list" where
  "coercion_sample dsk n cs =
     (if dsk then take (min 1000 n) cs else take 1000 (filter (\<lambda>c. c \<noteq> Null) cs))"

text \<open>
  \<open>pd.to_numeric(sample, errors='coerce').notna().mean()\<close>, for a sample that is not empty:
  the float quotient of the number of parsed values by the length of the sample.
\<close>

definition valid_num_pct :: "typefix_lib \<Rightarrow> cell list \<Rightarrow> rat" where
  "valid_num_pct lib sample =
     binary64 (of_nat (length (filter (\<lambda>c. to_numeric_cell lib c \<noteq> Null) sample))
                 / of_nat (length sample))"

definition bool_map :: "(string \<times> bool) list" where
  "bool_map = [(''yes'', True), (''no'', False), (''true'', True), (''false'', False),
     (''1'', True), (''0'', False), (''1.0'', True), (''0.0'', False)]"

definition bool_vocabulary :: "typefix_lib \<Rightarrow> cell list \<Rightarrow> bool" where
  "bool_vocabulary lib sample =
     list_all (\<lambda>c. py_lower (tf_cell_str lib c) \<in> set (map fst bool_map @ [''nan'', ''null'', ''none'', '''']))
       sample"

definition to_bool_cell :: "typefix_lib \<Rightarrow> cell \<Rightarrow> cell" where
  "to_bool_cell lib c =
     (case map_of bool_map (py_lower (tf_cell_str lib c)) of Some b \<Rightarrow> Boolv b | None \<Rightarrow> Null)"

definition coerce_log :: "string \<Rightarrow> string \<Rightarrow> string \<Rightarrow> log_entry" where
  "coerce_log job act col =
     \<lparr>log_job_id = job, step_name = ''TypeFixer'', action = act, column_name = Some col,
      after_value = [], severity = ''info''\<rparr>"

text \<open>What one iteration of the loop gives: the column, and what it appends to \<open>logs\<close>, \<open>warnings\<close> and \<open>modified\<close>.\<close>

record fixed_column =
  fc_column :: column
  fc_logs :: "log_entry list"
  fc_warnings :: "string list"
  fc_modified :: "string list"

text \<open>The body of the loop for the column \<open>c\<close> of a table of \<open>n\<close> rows.\<close>

definition type_fix_column ::
  "typefix_lib \<Rightarrow> pipeline_context \<Rightarrow> bool \<Rightarrow> nat \<Rightarrow> column \<Rightarrow> fixed_column" where
  "type_fix_column lib context dsk n c =
     (if \<not> is_object_dtype (cdtype c)
      then \<lparr>fc_column = c, fc_logs = [], fc_warnings = [], fc_modified = []\<rparr>
      else
        let col = cname c;
            stripped = strip_cells lib dsk (cells c);
            c1 = c\<lparr>cells := stripped\<rparr>;
            sample = coercion_sample dsk n stripped
        in if length sample = 0
           then \<lparr>fc_column = c1, fc_logs = [], fc_warnings = [], fc_modified = []\<rparr>
           else if binary64 (95 / 100) < valid_num_pct lib sample \<and> valid_num_pct lib sample < 1
           then \<lparr>fc_column = c1\<lparr>cdtype := Float_dtype, cells := map (to_numeric_cell lib) stripped\<rparr>,
                 fc_logs = [coerce_log (job_id context) ''coerce_numeric'' col],
                 fc_warnings = [], fc_modified = [col]\<rparr>
           else if bool_vocabulary lib sample
           then \<lparr>fc_column = c1\<lparr>cdtype := (if Null \<in> set (map (to_bool_cell lib) stripped)
                                               then Object_dtype else Bool_dtype),
                                    cells := map (to_bool_cell lib) stripped\<rparr>,
                 fc_logs = [coerce_log (job_id context) ''coerce_boolean'' col],
                 fc_warnings = [], fc_modified = [col]\<rparr>
           else if map_of (schema context) col = Some ''datetime_col''
           then (case tf_to_datetime lib stripped of
                   Inr parsed \<Rightarrow>
                     \<lparr>fc_column = c1\<lparr>cdtype := Datetime_dtype, cells := parsed\<rparr>,
                      fc_logs = [], fc_warnings = [], fc_modified = [col]\<rparr>
                 | Inl exc \<Rightarrow>
                     \<lparr>fc_column = c1, fc_logs = [],
                      fc_warnings = [''Could not convert '' @ col @ '' to datetime despite role: '' @ exc],
                      fc_modified = []\<rparr>)
           else \<lparr>fc_column = c1, fc_logs = [], fc_warnings = [], fc_modified = []\<rparr>)"

text \<open>\<open>df[col] = series\<close>: the column of that label is replaced (a new label is appended).\<close>

definition df_setitem :: "dataframe \<Rightarrow> column \<Rightarrow> dataframe" where
  "df_setitem df c =
     (if cname c \<in> set (df_columns df)
      then df\<lparr>columns := map (\<lambda>k. if cname k = cname c then c else k) (columns df)\<rparr>
      else df\<lparr>columns := columns df @ [c]\<rparr>)"

text \<open>The loop over \<open>cols_to_process\<close>, on the table and the three lists.\<close>

fun type_fix_loop ::
  "typefix_lib \<Rightarrow> pipeline_context \<Rightarrow> string list \<Rightarrow> step_result \<Rightarrow> string + step_result" where
  "type_fix_loop lib context [] r = Inr r"
| "type_fix_loop lib context (col # cols) r =
     (case df_getitem (sr_df r) col of
        Inl exc \<Rightarrow> Inl exc
      | Inr c \<Rightarrow>
          let f = type_fix_column lib context (dask (sr_df r)) (df_len (sr_df r)) c
          in type_fix_loop lib context cols
               \<lparr>sr_df = df_setitem (sr_df r) (fc_column f), sr_logs = sr_logs r @ fc_logs f,
                sr_warnings = sr_warnings r @ fc_warnings f,
                sr_modified_columns = sr_modified_columns r @ fc_modified f\<rparr>)"

definition TypeFixer_run :: "typefix_lib \<Rightarrow> dataframe \<Rightarrow> pipeline_context \<Rightarrow> string + step_result" where
  "TypeFixer_run lib df context =
     type_fix_loop lib context (df_columns df)
       \<lparr>sr_df = df, sr_logs = [], sr_warnings = [], sr_modified_columns = []\<rparr>"

text \<open>Example inputs: a parser of unsigned integers, and a column of 19 numbers and one word.\<close>

definition parse_digits :: "string \<Rightarrow> rat option" where
  "parse_digits s =
     (if s \<noteq> [] \<and> list_all py_isdigit s
      then Some (of_nat (foldl (\<lambda>a c. 10 * a + (of_char c - 48)) 0 s)) else None)"

definition tlib0 :: typefix_lib where
  "tlib0 = \<lparr>parse_number = parse_digits, tf_to_datetime = (\<lambda>cs. Inr (map (\<lambda>c. Null) cs)),
            tf_str = (\<lambda>c. ''nan'')\<rparr>"

definition amounts :: "nat \<Rightarrow> column" where
  "amounts k = \<lparr>cname = ''amount'', cdtype = Object_dtype,
                cells = map (\<lambda>i. Str (str_nat (i + 10))) [0..<k] @ [Str ''n/a'']\<rparr>"

definition amounts_df :: "nat \<Rightarrow> dataframe" where
  "amounts_df k = \<lparr>dask = False, columns = [amounts k]\<rparr>"

definition flags :: column where
  "flags = \<lparr>cname = ''active'', cdtype = Object_dtype,
            cells = [Str ''Yes'', Str '' no'', Null, Str ''TRUE'']\<rparr>"

definition stamps :: column where
  "stamps = \<lparr>cname = ''created'', cdtype = Object_dtype,
             cells = [Str ''2024-01-01'', Str ''2024-01-02'']\<rparr>"

definition stamps_ctx :: pipeline_context where
  "stamps_ctx = ctx0\<lparr>schema := [(''created'', ''datetime_col'')]\<rparr>"

lemma to_numeric_cell_shape: "to_numeric_cell lib c = Null \<or> (\<exists>r. to_numeric_cell lib c = Num r)"
  by (simp add: to_numeric_cell_def split: cell.splits option.splits)

lemma type_fix_column_cname: "cname (fc_column (type_fix_column lib ctx dsk n c)) = cname c"
  by (simp add: type_fix_column_def Let_def split: sum.splits)

lemma type_fix_column_pandas_n:
  "type_fix_column lib ctx False n c = type_fix_column lib ctx False 0 c"
  by (simp add: type_fix_column_def coercion_sample_def Let_def)

lemma distinct_names_mid:
  assumes "distinct (map cname (pre @ c # rest))"
  shows "\<forall>k\<in>set pre. cname k \<noteq> cname c" and "\<forall>k\<in>set rest. cname k \<noteq> cname c"
proof -
  have "cname c \<notin> cname ` set pre" and "cname c \<notin> cname ` set rest"
    using assms by auto
  then show "\<forall>k\<in>set pre. cname k \<noteq> cname c" and "\<forall>k\<in>set rest. cname k \<noteq> cname c"
    by (metis imageI)+
qed

lemma df_getitem_mid:
  assumes "distinct (map cname (pre @ c # rest))" and "columns df = pre @ c # rest"
  shows "df_getitem df (cname c) = Inr c"
proof -
  have "filter (\<lambda>k. cname k = cname c) pre = []" "filter (\<lambda>k. cname k = cname c) rest = []"
    using distinct_names_mid [OF assms(1)] by (simp_all add: filter_empty_conv)
  then show ?thesis by (simp add: df_getitem_def assms(2))
qed

lemma df_setitem_mid:
  assumes "distinct (map cname (pre @ c # rest))" and "columns df = pre @ c # rest"
    and "cname c' = cname c"
  shows "df_setitem df c' = df\<lparr>columns := pre @ c' # rest\<rparr>"
proof -
  have "map (\<lambda>k. if cname k = cname c then c' else k) pre = pre"
    using distinct_names_mid(1) [OF assms(1)] by (intro map_idI) simp
  moreover have "map (\<lambda>k. if cname k = cname c then c' else k) rest = rest"
    using distinct_names_mid(2) [OF assms(1)] by (intro map_idI) simp
  ultimately show ?thesis
    using assms(2,3) by (simp add: df_setitem_def df_columns_def)
qed

lemma type_fix_loop_pandas:
  assumes "columns (sr_df r) = pre @ rest" and "distinct (map cname (pre @ rest))"
    and "\<not> dask (sr_df r)"
  shows "type_fix_loop lib ctx (map cname rest) r =
     Inr \<lparr>sr_df = (sr_df r)\<lparr>columns := pre @ map (\<lambda>k. fc_column (type_fix_column lib ctx False 0 k)) rest\<rparr>,
          sr_logs = sr_logs r @ concat (map (\<lambda>k. fc_logs (type_fix_column lib ctx False 0 k)) rest),
          sr_warnings = sr_warnings r @ concat (map (\<lambda>k. fc_warnings (type_fix_column lib ctx False 0 k)) rest),
          sr_modified_columns = sr_modified_columns r
             @ concat (map (\<lambda>k. fc_modified (type_fix_column lib ctx False 0 k)) rest)\<rparr>"
  using assms
proof (induction rest arbitrary: r pre)
  case Nil
  then show ?case by simp
next
  case (Cons c rest)
  let ?f = "type_fix_column lib ctx False 0 c"
  let ?r1 = "\<lparr>sr_df = df_setitem (sr_df r) (fc_column ?f), sr_logs = sr_logs r @ fc_logs ?f,
              sr_warnings = sr_warnings r @ fc_warnings ?f,
              sr_modified_columns = sr_modified_columns r @ fc_modified ?f\<rparr>"
  have g: "df_getitem (sr_df r) (cname c) = Inr c"
    using df_getitem_mid [OF Cons.prems(2,1)] .
  have s: "df_setitem (sr_df r) (fc_column ?f) = (sr_df r)\<lparr>columns := pre @ fc_column ?f # rest\<rparr>"
    using df_setitem_mid [OF Cons.prems(2,1)] by (simp add: type_fix_column_cname)
  have step: "type_fix_loop lib ctx (map cname (c # rest)) r = type_fix_loop lib ctx (map cname rest) ?r1"
    using g Cons.prems(3) type_fix_column_pandas_n [of lib ctx "df_len (sr_df r)" c]
    by (simp add: Let_def)
  have c1: "columns (sr_df ?r1) = (pre @ [fc_column ?f]) @ rest" by (simp add: s)
  have d1: "distinct (map cname ((pre @ [fc_column ?f]) @ rest))"
    using Cons.prems(2) by (simp add: type_fix_column_cname)
  have k1: "\<not> dask (sr_df ?r1)" using Cons.prems(3) by (simp add: s)
  show ?case
    unfolding step using Cons.IH [OF c1 d1 k1] by (simp add: s)
qed

text \<open>
  On a pandas table with pairwise distinct column labels the step returns, and its result is
  the loop body \<open>type_fix_column\<close> applied to each column in turn.
\<close>

lemma TypeFixer_run_pandas:
  assumes "distinct (df_columns df)" and "\<not> dask df"
  shows "TypeFixer_run lib df ctx =
     Inr \<lparr>sr_df = df\<lparr>columns := map (\<lambda>k. fc_column (type_fix_column lib ctx False 0 k)) (columns df)\<rparr>,
          sr_logs = concat (map (\<lambda>k. fc_logs (type_fix_column lib ctx False 0 k)) (columns df)),
          sr_warnings = concat (map (\<lambda>k. fc_warnings (type_fix_column lib ctx False 0 k)) (columns df)),
          sr_modified_columns = concat (map (\<lambda>k. fc_modified (type_fix_column lib ctx False 0 k)) (columns df))\<rparr>"
  using type_fix_loop_pandas [of "\<lparr>sr_df = df, sr_logs = [], sr_warnings = [], sr_modified_columns = []\<rparr>"
      "[]" "columns df" lib ctx] assms
  by (simp add: TypeFixer_run_def df_columns_def)

text \<open>
  Claim C5, as amended. For a text-typed column with a non-empty sample, on either engine:
  if more than 95% and less than 100% of the sampled values numeric-coerce, every cell of the
  column is numeric-coerced (what does not parse becomes a null) and one \<open>coerce_numeric\<close>
  entry is logged; otherwise, if the sample is within the boolean vocabulary, the column is
  mapped to booleans and one \<open>coerce_boolean\<close> entry is logged; otherwise, if the schema
  gives the column the role \<open>datetime_col\<close>, the column is parsed as datetimes (or, when
  the parser raises, left as stripped text with a warning); otherwise the column is only
  stripped. At most one coercion is applied to a column, in the order numeric, boolean,
  datetime, and the label of the column is kept.
\<close>

theorem type_fix_column_coercions:
  assumes "is_object_dtype (cdtype c)"
    and "coercion_sample dsk n (strip_cells lib dsk (cells c)) \<noteq> []"
  shows
    "(let stripped = strip_cells lib dsk (cells c);
          pct = valid_num_pct lib (coercion_sample dsk n stripped);
          numeric = (binary64 (95 / 100) < pct \<and> pct < 1);
          boolean = bool_vocabulary lib (coercion_sample dsk n stripped);
          datetime = (map_of (schema ctx) (cname c) = Some ''datetime_col'');
          f = type_fix_column lib ctx dsk n c
      in (numeric \<longrightarrow>
            cells (fc_column f) = map (to_numeric_cell lib) stripped
          \<and> list_all (\<lambda>x. x = Null \<or> (\<exists>r. x = Num r)) (cells (fc_column f))
          \<and> fc_logs f = [coerce_log (job_id ctx) ''coerce_numeric'' (cname c)]
          \<and> fc_modified f = [cname c])
       \<and> (\<not> numeric \<and> boolean \<longrightarrow>
            cells (fc_column f) = map (to_bool_cell lib) stripped
          \<and> fc_logs f = [coerce_log (job_id ctx) ''coerce_boolean'' (cname c)]
          \<and> fc_modified f = [cname c])
       \<and> (\<not> numeric \<and> \<not> boolean \<and> datetime \<longrightarrow>
            fc_logs f = []
          \<and> (\<forall>parsed. tf_to_datetime lib stripped = Inr parsed \<longrightarrow>
                cells (fc_column f) = parsed \<and> fc_modified f = [cname c] \<and> fc_warnings f = [])
          \<and> (\<forall>exc. tf_to_datetime lib stripped = Inl exc \<longrightarrow>
                cells (fc_column f) = stripped \<and> fc_modified f = [] \<and> fc_warnings f \<noteq> []))
       \<and> (\<not> numeric \<and> \<not> boolean \<and> \<not> datetime \<longrightarrow>
            fc_column f = c\<lparr>cells := stripped\<rparr> \<and> fc_logs f = [] \<and> fc_modified f = [])
       \<and> length (fc_modified f) \<le> 1 \<and> length (fc_logs f) \<le> 1
       \<and> cname (fc_column f) = cname c)"
proof -
  have shape: "list_all (\<lambda>x. x = Null \<or> (\<exists>r. x = Num r)) (map (to_numeric_cell lib) xs)" for xs
    using to_numeric_cell_shape [of lib] by (induction xs) auto
  show ?thesis
    using assms shape [of "strip_cells lib dsk (cells c)"]
    by (auto simp: type_fix_column_def Let_def split: sum.splits)
qed

text \<open>
  The three coercions at concrete columns: 20 numbers and one word (numeric), a yes/no column
  (boolean), and a column with the schema role \<open>datetime_col\<close> (datetime).
\<close>

theorem type_fix_column_coercions_witness:
  "is_object_dtype (cdtype (amounts 20))
   \<and> coercion_sample False 21 (strip_cells tlib0 False (cells (amounts 20))) \<noteq> []
   \<and> binary64 (95 / 100) < valid_num_pct tlib0 (coercion_sample False 21 (strip_cells tlib0 False (cells (amounts 20))))
   \<and> valid_num_pct tlib0 (coercion_sample False 21 (strip_cells tlib0 False (cells (amounts 20)))) < 1
   \<and> cells (fc_column (type_fix_column tlib0 ctx0 False 21 (amounts 20)))
       = map (to_numeric_cell tlib0) (strip_cells tlib0 False (cells (amounts 20)))
   \<and> fc_modified (type_fix_column tlib0 ctx0 False 21 (amounts 20)) = [''amount'']
   \<and> is_object_dtype (cdtype flags)
   \<and> bool_vocabulary tlib0 (coercion_sample False 4 (strip_cells tlib0 False (cells flags)))
   \<and> cells (fc_column (type_fix_column tlib0 ctx0 False 4 flags))
       = map (to_bool_cell tlib0) (strip_cells tlib0 False (cells flags))
   \<and> fc_logs (type_fix_column tlib0 ctx0 False 4 flags) = [coerce_log ''j1'' ''coerce_boolean'' ''active'']
   \<and> is_object_dtype (cdtype stamps)
   \<and> map_of (schema stamps_ctx) (cname stamps) = Some ''datetime_col''
   \<and> cells (fc_column (type_fix_column tlib0 stamps_ctx False 2 stamps)) = [Null, Null]
   \<and> fc_modified (type_fix_column tlib0 stamps_ctx False 2 stamps) = [''created'']"
proof -
  have a1: "is_object_dtype (cdtype (amounts 20))" by code_simp
  have a2: "coercion_sample False 21 (strip_cells tlib0 False (cells (amounts 20))) \<noteq> []" by code_simp
  have a3: "binary64 (95 / 100) < valid_num_pct tlib0 (coercion_sample False 21 (strip_cells tlib0 False (cells (amounts 20))))"
    "valid_num_pct tlib0 (coercion_sample False 21 (strip_cells tlib0 False (cells (amounts 20)))) < 1"
    by code_simp+
  have a4: "cname (amounts 20) = ''amount''" by code_simp
  have b1: "is_object_dtype (cdtype flags)" by code_simp
  have b2: "coercion_sample False 4 (strip_cells tlib0 False (cells flags)) \<noteq> []" by code_simp
  have b3: "\<not> binary64 (95 / 100) < valid_num_pct tlib0 (coercion_sample False 4 (strip_cells tlib0 False (cells flags)))"
    by code_simp
  have b4: "bool_vocabulary tlib0 (coercion_sample False 4 (strip_cells tlib0 False (cells flags)))"
    by code_simp
  have b5: "cname flags = ''active''" "job_id ctx0 = ''j1''" by code_simp+
  have c1: "is_object_dtype (cdtype stamps)" by code_simp
  have c2: "coercion_sample False 2 (strip_cells tlib0 False (cells stamps)) \<noteq> []" by code_simp
  have c3: "\<not> binary64 (95 / 100) < valid_num_pct tlib0 (coercion_sample False 2 (strip_cells tlib0 False (cells stamps)))"
    by code_simp
  have c4: "\<not> bool_vocabulary tlib0 (coercion_sample False 2 (strip_cells tlib0 False (cells stamps)))"
    by code_simp
  have c5: "map_of (schema stamps_ctx) (cname stamps) = Some ''datetime_col''" by code_simp
  have c6: "tf_to_datetime tlib0 (strip_cells tlib0 False (cells stamps)) = Inr [Null, Null]" by code_simp
  have c7: "cname stamps = ''created''" by code_simp
  have A: "cells (fc_column (type_fix_column tlib0 ctx0 False 21 (amounts 20)))
       = map (to_numeric_cell tlib0) (strip_cells tlib0 False (cells (amounts 20)))
     \<and> fc_modified (type_fix_column tlib0 ctx0 False 21 (amounts 20)) = [''amount'']"
    using type_fix_column_coercions [OF a1 a2, of ctx0] a3 a4 by (simp add: Let_def)
  have B: "cells (fc_column (type_fix_column tlib0 ctx0 False 4 flags))
       = map (to_bool_cell tlib0) (strip_cells tlib0 False (cells flags))
     \<and> fc_logs (type_fix_column tlib0 ctx0 False 4 flags) = [coerce_log ''j1'' ''coerce_boolean'' ''active'']"
    using type_fix_column_coercions [OF b1 b2, of ctx0] b3 b4 b5 by (simp add: Let_def)
  have C: "cells (fc_column (type_fix_column tlib0 stamps_ctx False 2 stamps)) = [Null, Null]
     \<and> fc_modified (type_fix_column tlib0 stamps_ctx False 2 stamps) = [''created'']"
    using type_fix_column_coercions [OF c1 c2, of stamps_ctx] c3 c4 c5 c6 c7 by (simp add: Let_def)
  show ?thesis using a1 a2 a3 b1 b4 c1 c5 A B C by simp
qed

text \<open>
  Claim C5, as stated, fails at the threshold: of the 20 sampled values of the text column
  \<open>amounts 19\<close>, 19 numeric-coerce, which is 95% and not 100%; the test of the code is
  strict (\<open>valid_num_pct > 0.95\<close>), and the step returns the table unchanged with no log.
\<close>

theorem TypeFixer_threshold_counterexample:
  "is_object_dtype (cdtype (amounts 19))
   \<and> length (coercion_sample False 20 (strip_cells tlib0 False (cells (amounts 19)))) = 20
   \<and> length (filter (\<lambda>c. to_numeric_cell tlib0 c \<noteq> Null)
        (coercion_sample False 20 (strip_cells tlib0 False (cells (amounts 19))))) = 19
   \<and> TypeFixer_run tlib0 (amounts_df 19) ctx0
       = Inr \<lparr>sr_df = amounts_df 19, sr_logs = [], sr_warnings = [], sr_modified_columns = []\<rparr>"
  by code_simp

end
